theory Spec2Isabelle
  imports Complex_Main "HOL-Library.Char_ord" "HOL-Library.List_Lexorder" "HOL-Library.Sublist"
    "HOL-Library.AList"
begin

section \<open>JavaScript values\<close>

text \<open>
  A JavaScript number of hours is modelled as an exact rational, with \<open>None\<close> for
  \<open>NaN\<close>. The hours computed below are quotients \<open>m / 60\<close> of whole minutes and sums of
  such quotients; the binary rounding of a double is not part of this model. The
  amounts of the estimate worksheet are modelled as binary64 values, see there.
  A value of type \<open>string | null\<close> is a \<open>string option\<close>.
\<close>

type_synonym num = "rat option"

definition js_add :: "num \<Rightarrow> num \<Rightarrow> num" where
  "js_add a b = (case a of None \<Rightarrow> None | Some x \<Rightarrow> (case b of None \<Rightarrow> None | Some y \<Rightarrow> Some (x + y)))"

definition js_sub :: "num \<Rightarrow> num \<Rightarrow> num" where
  "js_sub a b = (case a of None \<Rightarrow> None | Some x \<Rightarrow> (case b of None \<Rightarrow> None | Some y \<Rightarrow> Some (x - y)))"

definition js_mul :: "num \<Rightarrow> num \<Rightarrow> num" where
  "js_mul a b = (case a of None \<Rightarrow> None | Some x \<Rightarrow> (case b of None \<Rightarrow> None | Some y \<Rightarrow> Some (x * y)))"

text \<open>Division by a non-zero constant (the source only divides by 60 and by 100).\<close>

definition js_div :: "num \<Rightarrow> rat \<Rightarrow> num" where
  "js_div a d = (case a of None \<Rightarrow> None | Some x \<Rightarrow> Some (x / d))"

text \<open>\<open>a > b\<close>: every comparison with \<open>NaN\<close> is false.\<close>

definition js_gt :: "num \<Rightarrow> rat \<Rightarrow> bool" where
  "js_gt a b = (case a of None \<Rightarrow> False | Some x \<Rightarrow> b < x)"

text \<open>Truthiness of a number (\<open>0\<close> and \<open>NaN\<close> are falsy) and of a \<open>string | null\<close>
  (\<open>null\<close> and the empty string are falsy).\<close>

definition truthy_num :: "num \<Rightarrow> bool" where
  "truthy_num a = (case a of None \<Rightarrow> False | Some x \<Rightarrow> x \<noteq> 0)"

definition truthy_str :: "string option \<Rightarrow> bool" where
  "truthy_str s = (case s of None \<Rightarrow> False | Some t \<Rightarrow> t \<noteq> [])"

text \<open>\<open>s || ''\<close> on a \<open>string | null\<close>.\<close>

definition or_empty :: "string option \<Rightarrow> string" where
  "or_empty s = (case s of None \<Rightarrow> [] | Some t \<Rightarrow> t)"

subsection \<open>Decimal digits, \<open>Number\<close> and \<open>split\<close>\<close>

definition digit_of :: "char \<Rightarrow> int option" where
  "digit_of c = (let n = (of_char c :: int) in if 48 \<le> n \<and> n \<le> 57 then Some (n - 48) else None)"

fun digits_value :: "int \<Rightarrow> string \<Rightarrow> int option" where
  "digits_value acc [] = Some acc"
| "digits_value acc (c # cs) =
     (case digit_of c of None \<Rightarrow> None | Some d \<Rightarrow> digits_value (10 * acc + d) cs)"

text \<open>
  \<open>Number(s)\<close> on the strings that occur as the parts of a time of day: a run of decimal
  digits denotes its value and the empty string denotes 0. Every other string is taken
  to \<open>NaN\<close> here (JavaScript also reads signs, fractions, exponents and blanks, which no
  time of day contains).
\<close>

definition Number_str :: "string \<Rightarrow> num" where
  "Number_str s = map_option of_int (digits_value 0 s)"

text \<open>\<open>s.split(':')\<close>.\<close>

fun split_colon :: "string \<Rightarrow> string list" where
  "split_colon [] = [[]]"
| "split_colon (c # cs) =
     (if c = CHR '':'' then [] # split_colon cs
      else (case split_colon cs of [] \<Rightarrow> [[c]] | p # ps \<Rightarrow> (c # p) # ps))"

text \<open>
  \<open>const [hours, mins] = lunchBreak.split(':').map(Number); hours * 60 + mins\<close>.
  A missing second part is \<open>undefined\<close>, which makes the sum \<open>NaN\<close>.
\<close>

definition lunch_minutes :: "string \<Rightarrow> num" where
  "lunch_minutes lunchBreak =
     (case map Number_str (split_colon lunchBreak) of
        hours # mins # _ \<Rightarrow> js_add (js_mul hours (Some 60)) mins
      | _ \<Rightarrow> None)"

subsection \<open>date-fns: \<open>parseISO\<close> of a time of day and \<open>differenceInMinutes\<close>\<close>

text \<open>
  \<open>parseISO(`2000-01-01T${t}`)\<close> for the two forms of \<open>t\<close> that the application handles:
  \<open>HH:MM\<close> (the value of a time input) and \<open>HH:MM:SS\<close> (a \<open>time\<close> column as the backend
  returns it). The result is the number of seconds after local midnight of 2000-01-01;
  \<open>None\<close> is the library's Invalid Date. Hour 24 is accepted with zero minutes and
  seconds only, as the library's validation has it. Other spellings of a time are
  outside the model and taken to Invalid Date.
\<close>

definition two_digits :: "char \<Rightarrow> char \<Rightarrow> int option" where
  "two_digits a b =
     (case digit_of a of None \<Rightarrow> None
      | Some x \<Rightarrow> (case digit_of b of None \<Rightarrow> None | Some y \<Rightarrow> Some (10 * x + y)))"

definition validateTime :: "int \<Rightarrow> int \<Rightarrow> int \<Rightarrow> bool" where
  "validateTime hours minutes seconds =
     (if hours = 24 then minutes = 0 \<and> seconds = 0
      else seconds < 60 \<and> minutes < 60 \<and> hours < 25)"

definition time_value :: "int option \<Rightarrow> int option \<Rightarrow> int option \<Rightarrow> int option" where
  "time_value h m s =
     (case h of None \<Rightarrow> None
      | Some hours \<Rightarrow> (case m of None \<Rightarrow> None
      | Some minutes \<Rightarrow> (case s of None \<Rightarrow> None
      | Some seconds \<Rightarrow>
          if validateTime hours minutes seconds
          then Some (hours * 3600 + minutes * 60 + seconds) else None)))"

definition parseISO_time :: "string \<Rightarrow> int option" where
  "parseISO_time t =
     (if length t = 5 \<and> t ! 2 = CHR '':''
      then time_value (two_digits (t ! 0) (t ! 1)) (two_digits (t ! 3) (t ! 4)) (Some 0)
      else if length t = 8 \<and> t ! 2 = CHR '':'' \<and> t ! 5 = CHR '':''
      then time_value (two_digits (t ! 0) (t ! 1)) (two_digits (t ! 3) (t ! 4))
             (two_digits (t ! 6) (t ! 7))
      else None)"

text \<open>Integer division that truncates toward zero (the library's default rounding).\<close>

definition trunc_div :: "int \<Rightarrow> int \<Rightarrow> int" where
  "trunc_div a b = (if a < 0 then - ((- a) div b) else a div b)"

text \<open>\<open>differenceInMinutes(dateLeft, dateRight)\<close>: the whole minutes from \<open>dateRight\<close> to
  \<open>dateLeft\<close>, truncated toward zero; \<open>NaN\<close> when either date is invalid.\<close>

definition differenceInMinutes :: "int option \<Rightarrow> int option \<Rightarrow> num" where
  "differenceInMinutes dateLeft dateRight =
     (case dateLeft of None \<Rightarrow> None
      | Some l \<Rightarrow> (case dateRight of None \<Rightarrow> None
      | Some r \<Rightarrow> Some (of_int (trunc_div (l - r) 60))))"

subsection \<open>\<open>toFixed(2)\<close>\<close>

text \<open>
  The integer \<open>n\<close> of \<open>x.toFixed(2)\<close>: for \<open>x \<ge> 0\<close> the integer with \<open>n / 100\<close> nearest
  to \<open>x\<close>, the larger one on a tie; a negative \<open>x\<close> is negated first and the sign is put
  in front of the digits.
\<close>

definition toFixed2_cents :: "rat \<Rightarrow> int" where
  "toFixed2_cents x = (if x < 0 then - \<lfloor>(- x) * 100 + 1 / 2\<rfloor> else \<lfloor>x * 100 + 1 / 2\<rfloor>)"

text \<open>\<open>Number(x.toFixed(2))\<close>: the number the two-decimal string denotes.\<close>

definition Number_toFixed2 :: "num \<Rightarrow> num" where
  "Number_toFixed2 a = (case a of None \<Rightarrow> None | Some x \<Rightarrow> Some (of_int (toFixed2_cents x) / 100))"


subsection \<open>Rendering numbers\<close>

definition digit_char :: "int \<Rightarrow> char" where
  "digit_char d = ''0123456789'' ! nat (d mod 10)"

text \<open>Two and four digits with leading zeros (the library's \<open>addLeadingZeros\<close>, for values
  below 100 and below 10000).\<close>

definition pad2 :: "int \<Rightarrow> string" where
  "pad2 n = [digit_char (n div 10), digit_char n]"

definition pad4 :: "int \<Rightarrow> string" where
  "pad4 n = pad2 (n div 100) @ pad2 n"

text \<open>The value of a time input: \<open>HH:MM\<close>.\<close>

definition hhmm :: "int \<Rightarrow> int \<Rightarrow> string" where
  "hhmm h m = pad2 h @ CHR '':'' # pad2 m"

text \<open>The decimal digits of a non-negative integer.\<close>

function dec_digits :: "int \<Rightarrow> string" where
  "dec_digits n = (if n < 10 then [digit_char n] else dec_digits (n div 10) @ [digit_char n])"
  by pat_completeness auto
termination
  by (relation "measure nat") auto

declare dec_digits.simps [simp del]

text \<open>
  \<open>x.toFixed(2)\<close> as a string, for magnitudes below \<open>10^21\<close> (beyond which JavaScript
  switches to exponent notation): an optional sign, the integer digits, a point and two
  decimals. \<open>NaN.toFixed(2)\<close> is \<open>"NaN"\<close>.
\<close>

definition toFixed2 :: "num \<Rightarrow> string" where
  "toFixed2 a =
     (case a of None \<Rightarrow> ''NaN''
      | Some x \<Rightarrow>
          let n = \<bar>toFixed2_cents x\<bar>
          in (if x < 0 then ''-'' else []) @ dec_digits (n div 100) @ ''.'' @ pad2 (n mod 100))"

subsection \<open>date-fns: calendar dates\<close>

text \<open>
  A \<open>Date\<close> at local midnight is modelled by its day number (days since 1970-01-01) in
  the proleptic Gregorian calendar, which is what the library computes with.
  \<open>parseISO\<close> is modelled for the form \<open>yyyy-MM-dd\<close>, the value of a date input and of a
  \<open>date\<close> column; \<open>None\<close> is Invalid Date (a string of another form, or an impossible
  day such as 2023-02-29).
\<close>

definition isLeapYear :: "int \<Rightarrow> bool" where
  "isLeapYear y = (y mod 400 = 0 \<or> (y mod 4 = 0 \<and> y mod 100 \<noteq> 0))"

definition daysInMonth :: "int \<Rightarrow> int \<Rightarrow> int" where
  "daysInMonth y m =
     (if m = 2 then (if isLeapYear y then 29 else 28)
      else if m = 4 \<or> m = 6 \<or> m = 9 \<or> m = 11 then 30 else 31)"

definition validateDate :: "int \<Rightarrow> int \<Rightarrow> int \<Rightarrow> bool" where
  "validateDate y m d = (1 \<le> m \<and> m \<le> 12 \<and> 1 \<le> d \<and> d \<le> daysInMonth y m)"

definition days_from_civil :: "int \<Rightarrow> int \<Rightarrow> int \<Rightarrow> int" where
  "days_from_civil y m d =
     (let y' = (if m \<le> 2 then y - 1 else y);
          era = y' div 400;
          yoe = y' - era * 400;
          doy = (153 * (if m > 2 then m - 3 else m + 9) + 2) div 5 + d - 1;
          doe = yoe * 365 + yoe div 4 - yoe div 100 + doy
      in era * 146097 + doe - 719468)"

definition civil_from_days :: "int \<Rightarrow> int \<times> int \<times> int" where
  "civil_from_days z =
     (let z' = z + 719468;
          era = z' div 146097;
          doe = z' - era * 146097;
          yoe = (doe - doe div 1460 + doe div 36524 - doe div 146096) div 365;
          doy = doe - (365 * yoe + yoe div 4 - yoe div 100);
          mp = (5 * doy + 2) div 153;
          d = doy - (153 * mp + 2) div 5 + 1;
          m = (if mp < 10 then mp + 3 else mp - 9);
          y = yoe + era * 400
      in (if m \<le> 2 then y + 1 else y, m, d))"

definition parseISO_date :: "string \<Rightarrow> int option" where
  "parseISO_date s =
     (if length s = 10 \<and> s ! 4 = CHR ''-'' \<and> s ! 7 = CHR ''-'' then
        (case two_digits (s ! 0) (s ! 1) of None \<Rightarrow> None | Some yh \<Rightarrow>
        (case two_digits (s ! 2) (s ! 3) of None \<Rightarrow> None | Some yl \<Rightarrow>
        (case two_digits (s ! 5) (s ! 6) of None \<Rightarrow> None | Some m \<Rightarrow>
        (case two_digits (s ! 8) (s ! 9) of None \<Rightarrow> None | Some d \<Rightarrow>
           if validateDate (100 * yh + yl) m d
           then Some (days_from_civil (100 * yh + yl) m d) else None))))
      else None)"

text \<open>\<open>format(date, 'yyyy-MM-dd')\<close> and \<open>format(date, 'MM/dd/yyyy')\<close> of a valid date.\<close>

definition format_yyyy_MM_dd :: "int \<Rightarrow> string" where
  "format_yyyy_MM_dd z =
     (case civil_from_days z of (y, m, d) \<Rightarrow> pad4 y @ ''-'' @ pad2 m @ ''-'' @ pad2 d)"

definition format_MM_dd_yyyy :: "int \<Rightarrow> string" where
  "format_MM_dd_yyyy z =
     (case civil_from_days z of (y, m, d) \<Rightarrow> pad2 m @ ''/'' @ pad2 d @ ''/'' @ pad4 y)"

text \<open>\<open>format(parseISO(s), 'MM/dd/yyyy')\<close>: \<open>format\<close> throws a RangeError on an Invalid
  Date, which is \<open>None\<close> here.\<close>

definition format_date_US :: "string \<Rightarrow> string option" where
  "format_date_US s = map_option format_MM_dd_yyyy (parseISO_date s)"

text \<open>\<open>eachDayOfInterval({start, end})\<close> for \<open>start \<le> end\<close>: every day from \<open>start\<close> to
  \<open>end\<close>, both included.\<close>

definition eachDayOfInterval :: "int \<Rightarrow> int \<Rightarrow> int list" where
  "eachDayOfInterval start end' = [start..end']"

section \<open>CSV cells\<close>

definition dquote :: char where
  "dquote = CHR 0x22"

definition newline :: char where
  "newline = CHR 0x0A"

text \<open>\<open>`"${cell.replace(/"/g, '""')}"`\<close>\<close>

definition csv_cell :: "string \<Rightarrow> string" where
  "csv_cell cell = dquote # concat (map (\<lambda>c. if c = dquote then [dquote, dquote] else [c]) cell) @ [dquote]"

text \<open>\<open>xs.join(sep)\<close>\<close>

fun join :: "string \<Rightarrow> string list \<Rightarrow> string" where
  "join sep [] = []"
| "join sep [x] = x"
| "join sep (x # y # ys) = x @ sep @ join sep (y # ys)"

section \<open>Data model\<close>

text \<open>The expense of the entry form (\<open>Expense\<close> in TimeEntriesPage.tsx).\<close>

record Expense =
  amount :: rat
  description :: string
  receipt_url :: "string option"
  receipt_image_url :: "string option"
  retailer_id :: "nat option"
  retailer_name :: string

text \<open>The entry of the entry form (\<open>TimeEntry\<close> in TimeEntriesPage.tsx).\<close>

record TimeEntry =
  entry_id :: string
  date :: string
  is_full_day :: bool
  start_time :: string
  end_time :: string
  location :: string
  has_lunch_break :: bool
  lunch_break :: "string option"
  entry_notes :: "string option"
  user_id :: string
  full_name :: string
  expenses :: "Expense list"

text \<open>
  A row of \<open>time_entries\<close> as the reporting views read it, with its child expenses
  (\<open>TimeEntry\<close> in the admin page, the activity dashboard and the invoice page; the
  admin page reads no expenses).
\<close>

record RowExpense =
  exp_amount :: rat
  exp_description :: string
  exp_receipt_url :: "string option"
  exp_retailer_name :: "string option"

record TimeEntryRow =
  row_id :: nat
  row_date :: string
  row_start_time :: string
  row_end_time :: string
  row_location :: string
  row_lunch_break :: "string option"
  row_notes :: "string option"
  row_user_id :: string
  row_full_name :: string
  row_is_full_day :: bool
  row_expenses :: "RowExpense list"

section \<open>Duration calculators\<close>

text \<open>Entry form: \<open>calculateEntryHours\<close> (TimeEntriesPage.tsx).\<close>

definition calculateEntryHours :: "TimeEntry \<Rightarrow> num" where
  "calculateEntryHours entry =
     (if is_full_day entry
      then (if has_lunch_break entry \<and> truthy_str (lunch_break entry) then Some (15 / 2) else Some 8)
      else
        let startTime = parseISO_time (start_time entry);
            endTime = parseISO_time (end_time entry);
            minutes = differenceInMinutes endTime startTime;
            minutes' = (if has_lunch_break entry \<and> truthy_str (lunch_break entry)
                        then js_sub minutes (lunch_minutes (or_empty (lunch_break entry)))
                        else minutes)
        in Number_toFixed2 (js_div minutes' 60))"

text \<open>Admin table: \<open>calculateTotalHours\<close>.\<close>

definition calculateTotalHours :: "TimeEntryRow \<Rightarrow> num" where
  "calculateTotalHours entry =
     (if row_is_full_day entry
      then (if truthy_str (row_lunch_break entry) then Some (15 / 2) else Some 8)
      else
        let startTime = parseISO_time (row_start_time entry);
            endTime = parseISO_time (row_end_time entry);
            minutes = differenceInMinutes endTime startTime;
            minutes' = (if truthy_str (row_lunch_break entry)
                        then js_sub minutes (lunch_minutes (or_empty (row_lunch_break entry)))
                        else minutes)
        in Number_toFixed2 (js_div minutes' 60))"

text \<open>Activity dashboard: \<open>calculateDuration\<close>. It takes no full-day flag.\<close>

definition calculateDuration :: "string \<Rightarrow> string \<Rightarrow> string option \<Rightarrow> num" where
  "calculateDuration start end' lunchBreak =
     (let startTime = parseISO_time start;
          endTime = parseISO_time end';
          minutes = differenceInMinutes endTime startTime;
          minutes' = (if truthy_str lunchBreak
                      then js_sub minutes (lunch_minutes (or_empty lunchBreak))
                      else minutes)
      in js_div minutes' 60)"

text \<open>
  Invoice page: the hours of one entry inside \<open>locationSummary\<close>. The difference of the
  two timestamps is taken in milliseconds and divided, without truncation to whole
  minutes; a full-day entry is given the times 09:00 and 17:00.
\<close>

definition getTime_diff_minutes :: "int option \<Rightarrow> int option \<Rightarrow> num" where
  "getTime_diff_minutes endTime startTime =
     (case endTime of None \<Rightarrow> None
      | Some e \<Rightarrow> (case startTime of None \<Rightarrow> None
      | Some s \<Rightarrow> Some ((of_int e - of_int s) / 60)))"

definition summaryEntryHours :: "TimeEntryRow \<Rightarrow> num" where
  "summaryEntryHours entry =
     (let startTime = parseISO_time (if row_is_full_day entry then ''09:00'' else row_start_time entry);
          endTime = parseISO_time (if row_is_full_day entry then ''17:00'' else row_end_time entry);
          minutes = getTime_diff_minutes endTime startTime;
          minutes' = (if truthy_str (row_lunch_break entry)
                      then js_sub minutes (lunch_minutes (or_empty (row_lunch_break entry)))
                      else minutes)
      in js_div minutes' 60)"


section \<open>Entry form: \<open>handleSubmit\<close>\<close>

text \<open>
  The backend is a store of rows and a counter of the requests made so far. Whether the
  \<open>k\<close>-th request errors is decided by the environment (\<open>fails\<close>), so every pattern of
  failures is covered. Generated ids are the row's position in its table. \<open>publicUrl\<close>
  is the public address the file store hands back for an uploaded receipt.
\<close>

record Profile =
  profile_id :: string
  profile_full_name :: string

record StoredExpense =
  se_time_entry_id :: nat
  se_user_id :: string
  se_amount :: rat
  se_description :: string
  se_retailer_id :: "nat option"
  se_receipt_url :: "string option"
  se_receipt_image_url :: "string option"

record Retailer =
  retailer_row_id :: nat
  retailer_row_name :: string

record Backend =
  time_entries :: "TimeEntryRow list"
  expenses_table :: "StoredExpense list"
  retailers :: "Retailer list"
  receipts :: "string list"
  requests :: nat

record Env =
  fails :: "nat \<Rightarrow> bool"
  publicUrl :: "string \<Rightarrow> string"

text \<open>The component state that \<open>handleSubmit\<close> reads. The form only holds entries once
  the profile has been loaded, so the profile is present.\<close>

record Session =
  isAdmin :: bool
  userId :: string
  currentUserProfile :: Profile

definition tick :: "Backend \<Rightarrow> Backend" where
  "tick b = b\<lparr>requests := Suc (requests b)\<rparr>"

text \<open>The object handed to \<open>from('time_entries').insert\<close>, with the generated id.\<close>

definition time_entry_row :: "Session \<Rightarrow> TimeEntry \<Rightarrow> nat \<Rightarrow> TimeEntryRow" where
  "time_entry_row ss entry new_id =
     \<lparr>row_id = new_id,
      row_date = date entry,
      row_start_time = (if is_full_day entry then ''08:00'' else start_time entry),
      row_end_time = (if is_full_day entry then ''16:30'' else end_time entry),
      row_location = location entry,
      row_lunch_break = (if has_lunch_break entry then lunch_break entry else None),
      row_notes = entry_notes entry,
      row_user_id = (if isAdmin ss then user_id entry else userId ss),
      row_full_name = (if isAdmin ss then full_name entry else profile_full_name (currentUserProfile ss)),
      row_is_full_day = is_full_day entry,
      row_expenses = []\<rparr>"

definition insert_time_entry :: "Env \<Rightarrow> Session \<Rightarrow> TimeEntry \<Rightarrow> Backend \<Rightarrow> nat option \<times> Backend" where
  "insert_time_entry env ss entry b =
     (if fails env (requests b) then (None, tick b)
      else (Some (length (time_entries b)),
            tick (b\<lparr>time_entries := time_entries b @ [time_entry_row ss entry (length (time_entries b))]\<rparr>)))"

text \<open>The receipt upload: an error is caught and logged, and the expense keeps its
  \<open>blob:\<close> address.\<close>

definition upload_receipt :: "Env \<Rightarrow> Expense \<Rightarrow> Backend \<Rightarrow> Expense \<times> Backend" where
  "upload_receipt env expense b =
     (case receipt_url expense of
        None \<Rightarrow> (expense, b)
      | Some url \<Rightarrow>
          if url \<noteq> [] \<and> prefix ''blob:'' url then
            (if fails env (requests b) then (expense, tick b)
             else (expense\<lparr>receipt_url := Some (publicUrl env url),
                           receipt_image_url := Some (publicUrl env url)\<rparr>,
                   tick (b\<lparr>receipts := receipts b @ [publicUrl env url]\<rparr>)))
          else (expense, b))"

text \<open>
  The retailer of an expense: looked up by name, created when the lookup returns
  nothing. An error of the lookup is not inspected (its data is then empty); an error
  of the insert is thrown (\<open>Inl\<close>).
\<close>

definition resolve_retailer :: "Env \<Rightarrow> Expense \<Rightarrow> Backend \<Rightarrow> (unit + nat option) \<times> Backend" where
  "resolve_retailer env expense b =
     (if retailer_name expense \<noteq> [] \<and> retailer_id expense = None then
        (let existingRetailers =
               (if fails env (requests b) then None
                else find (\<lambda>r. retailer_row_name r = retailer_name expense) (retailers b));
             b1 = tick b
         in case existingRetailers of
              Some r \<Rightarrow> (Inr (Some (retailer_row_id r)), b1)
            | None \<Rightarrow>
                if fails env (requests b1) then (Inl (), tick b1)
                else (Inr (Some (length (retailers b1))),
                      tick (b1\<lparr>retailers := retailers b1 @
                              [\<lparr>retailer_row_id = length (retailers b1),
                                retailer_row_name = retailer_name expense\<rparr>]\<rparr>)))
      else (Inr (retailer_id expense), b))"

definition insert_expense ::
  "Env \<Rightarrow> Session \<Rightarrow> TimeEntry \<Rightarrow> nat \<Rightarrow> Expense \<Rightarrow> nat option \<Rightarrow> Backend \<Rightarrow> bool \<times> Backend" where
  "insert_expense env ss entry timeEntryId expense retailerId b =
     (if fails env (requests b) then (False, tick b)
      else (True,
            tick (b\<lparr>expenses_table := expenses_table b @
                    [\<lparr>se_time_entry_id = timeEntryId,
                      se_user_id = (if isAdmin ss then user_id entry else userId ss),
                      se_amount = amount expense,
                      se_description = description expense,
                      se_retailer_id = retailerId,
                      se_receipt_url = receipt_url expense,
                      se_receipt_image_url = receipt_image_url expense\<rparr>]\<rparr>)))"

text \<open>One pass of the inner loop. The result is \<open>False\<close> when an error was thrown.\<close>

definition submit_expense ::
  "Env \<Rightarrow> Session \<Rightarrow> TimeEntry \<Rightarrow> nat \<Rightarrow> Expense \<Rightarrow> Backend \<Rightarrow> bool \<times> Backend" where
  "submit_expense env ss entry timeEntryId expense b =
     (case upload_receipt env expense b of
        (expense', b1) \<Rightarrow>
          (case resolve_retailer env expense' b1 of
             (Inl _, b2) \<Rightarrow> (False, b2)
           | (Inr retailerId, b2) \<Rightarrow> insert_expense env ss entry timeEntryId expense' retailerId b2))"

fun submit_expenses ::
  "Env \<Rightarrow> Session \<Rightarrow> TimeEntry \<Rightarrow> nat \<Rightarrow> Expense list \<Rightarrow> Backend \<Rightarrow> bool \<times> Backend" where
  "submit_expenses env ss entry timeEntryId [] b = (True, b)"
| "submit_expenses env ss entry timeEntryId (expense # rest) b =
     (case submit_expense env ss entry timeEntryId expense b of
        (False, b') \<Rightarrow> (False, b')
      | (True, b') \<Rightarrow> submit_expenses env ss entry timeEntryId rest b')"

text \<open>One pass of the outer loop.\<close>

definition submit_entry :: "Env \<Rightarrow> Session \<Rightarrow> TimeEntry \<Rightarrow> Backend \<Rightarrow> bool \<times> Backend" where
  "submit_entry env ss entry b =
     (case insert_time_entry env ss entry b of
        (None, b') \<Rightarrow> (False, b')
      | (Some timeEntryId, b') \<Rightarrow> submit_expenses env ss entry timeEntryId (expenses entry) b')"

fun submit_entries :: "Env \<Rightarrow> Session \<Rightarrow> TimeEntry list \<Rightarrow> Backend \<Rightarrow> bool \<times> Backend" where
  "submit_entries env ss [] b = (True, b)"
| "submit_entries env ss (entry # rest) b =
     (case submit_entry env ss entry b of
        (False, b') \<Rightarrow> (False, b')
      | (True, b') \<Rightarrow> submit_entries env ss rest b')"

text \<open>
  The confirmation prompt is kept as the list it is rendered from: for each entry over
  8 hours the name shown, the date as \<open>MM/dd/yyyy\<close> and the hours. Formatting an invalid
  date throws before the \<open>try\<close> block, so nothing catches it (\<open>Uncaught\<close>).
\<close>

datatype outcome = Uncaught | Declined | Submitted | Failed

record SubmitResult =
  prompt :: "(string \<times> string \<times> num) list option"
  alerts :: "string list"
  backend :: Backend
  form_entries :: "TimeEntry list"
  result :: outcome

definition prompt_line :: "Session \<Rightarrow> TimeEntry \<Rightarrow> (string \<times> string \<times> num) option" where
  "prompt_line ss entry =
     (let hours = calculateEntryHours entry;
          name = (if isAdmin ss then full_name entry else ''this employee'')
      in map_option (\<lambda>d. (name, d, hours)) (format_date_US (date entry)))"

definition submit_all ::
  "Env \<Rightarrow> Session \<Rightarrow> TimeEntry \<Rightarrow> (string \<times> string \<times> num) list option \<Rightarrow> TimeEntry list \<Rightarrow> Backend \<Rightarrow> SubmitResult" where
  "submit_all env ss defaultEntry shown entries b =
     (case submit_entries env ss entries b of
        (True, b') \<Rightarrow>
          \<lparr>prompt = shown, alerts = [''Time entries and expenses submitted successfully!''],
           backend = b', form_entries = [defaultEntry], result = Submitted\<rparr>
      | (False, b') \<Rightarrow>
          \<lparr>prompt = shown, alerts = [''Failed to submit entries. Please try again.''],
           backend = b', form_entries = entries, result = Failed\<rparr>)"

text \<open>\<open>confirmAnswer\<close> is what the user answers if \<open>window.confirm\<close> is shown;
  \<open>defaultEntry\<close> is the fresh entry of \<open>createDefaultEntry()\<close>. After a failure the form
  keeps its entries; the public receipt addresses that the loop writes back into their
  expenses are not tracked in \<open>form_entries\<close>.\<close>

definition handleSubmit ::
  "Env \<Rightarrow> Session \<Rightarrow> bool \<Rightarrow> TimeEntry \<Rightarrow> TimeEntry list \<Rightarrow> Backend \<Rightarrow> SubmitResult" where
  "handleSubmit env ss confirmAnswer defaultEntry entries b =
     (let entriesOver8Hours = filter (\<lambda>entry. js_gt (calculateEntryHours entry) 8) entries
      in if entriesOver8Hours \<noteq> [] then
           (case those (map (prompt_line ss) entriesOver8Hours) of
              None \<Rightarrow>
                \<lparr>prompt = None, alerts = [], backend = b, form_entries = entries, result = Uncaught\<rparr>
            | Some entryList \<Rightarrow>
                if \<not> confirmAnswer
                then \<lparr>prompt = Some entryList, alerts = [], backend = b, form_entries = entries,
                      result = Declined\<rparr>
                else submit_all env ss defaultEntry (Some entryList) entries b)
         else submit_all env ss defaultEntry None entries b)"


section \<open>Sorting with a comparator\<close>

text \<open>
  \<open>xs.sort(compare)\<close> is a stable sort. It is modelled by a stable insertion sort,
  which every stable sort agrees with when the comparator is consistent.
  \<open>localeCompare\<close> is a parameter: its order is the platform's collation.
\<close>

fun insert_by :: "('a \<Rightarrow> 'a \<Rightarrow> int) \<Rightarrow> 'a \<Rightarrow> 'a list \<Rightarrow> 'a list" where
  "insert_by compare x [] = [x]"
| "insert_by compare x (y # ys) =
     (if compare x y \<le> 0 then x # y # ys else y # insert_by compare x ys)"

definition sort_by :: "('a \<Rightarrow> 'a \<Rightarrow> int) \<Rightarrow> 'a list \<Rightarrow> 'a list" where
  "sort_by compare xs = foldr (insert_by compare) xs []"

text \<open>A sum of numbers from left to right, as \<open>+=\<close> in a loop computes it.\<close>

definition js_sum :: "num list \<Rightarrow> num" where
  "js_sum hs = foldl js_add (Some 0) hs"

definition sum_amounts :: "RowExpense list \<Rightarrow> rat" where
  "sum_amounts es = foldl (\<lambda>sum exp. sum + exp_amount exp) 0 es"

section \<open>Activity dashboard\<close>

text \<open>The hours of a row as every aggregate of the dashboard computes them.\<close>

definition row_duration :: "TimeEntryRow \<Rightarrow> num" where
  "row_duration entry =
     calculateDuration (row_start_time entry) (row_end_time entry) (row_lunch_break entry)"

subsection \<open>\<open>chartData\<close>\<close>

text \<open>
  \<open>data\<close> is an object keyed by date whose values are objects keyed by user; both are
  association lists in insertion order. Names and dates are ordinary keys (not names
  of members of \<open>Object.prototype\<close>). The colour of a dataset is left out.
\<close>

record UserDay =
  ud_hours :: num
  ud_locations :: "string list"

type_synonym ChartTable = "(string \<times> (string \<times> UserDay) list) list"

definition chart_add_entry :: "TimeEntryRow \<Rightarrow> ChartTable \<Rightarrow> ChartTable" where
  "chart_add_entry entry data =
     (let entryDate = row_date entry;
          hours = row_duration entry;
          day = (case map_of data entryDate of None \<Rightarrow> [] | Some users \<Rightarrow> users);
          cell = (case map_of day (row_full_name entry) of
                    None \<Rightarrow> \<lparr>ud_hours = Some 0, ud_locations = []\<rparr>
                  | Some c \<Rightarrow> c);
          cell' = \<lparr>ud_hours = js_add (ud_hours cell) hours,
                   ud_locations =
                     (if row_location entry \<in> set (ud_locations cell) then ud_locations cell
                      else ud_locations cell @ [row_location entry])\<rparr>
      in AList.update entryDate (AList.update (row_full_name entry) cell' day) data)"

text \<open>\<open>data[date][user]?.hours || 0\<close> and \<open>data[date][user]?.locations || []\<close>\<close>

definition chart_hours :: "ChartTable \<Rightarrow> string \<Rightarrow> string \<Rightarrow> num" where
  "chart_hours data date' user =
     (case map_of data date' of
        None \<Rightarrow> Some 0
      | Some users \<Rightarrow>
          (case map_of users user of
             None \<Rightarrow> Some 0
           | Some c \<Rightarrow> if truthy_num (ud_hours c) then ud_hours c else Some 0))"

definition chart_locations :: "ChartTable \<Rightarrow> string \<Rightarrow> string \<Rightarrow> string list" where
  "chart_locations data date' user =
     (case map_of data date' of
        None \<Rightarrow> []
      | Some users \<Rightarrow> (case map_of users user of None \<Rightarrow> [] | Some c \<Rightarrow> ud_locations c))"

text \<open>\<open>/^\d{4}-\d{2}-\d{2}$/\<close>\<close>

definition dateRegex :: "string \<Rightarrow> bool" where
  "dateRegex s =
     (length s = 10 \<and> s ! 4 = CHR ''-'' \<and> s ! 7 = CHR ''-'' \<and>
      list_all (\<lambda>i. digit_of (s ! i) \<noteq> None) [0, 1, 2, 3, 5, 6, 8, 9])"

record Dataset =
  ds_label :: string
  ds_data :: "num list"
  ds_locationData :: "string list list"

record ChartData =
  labels :: "string list"
  datasets :: "Dataset list"

definition chart_table :: "TimeEntryRow list \<Rightarrow> int list \<Rightarrow> ChartTable" where
  "chart_table entries dateRange =
     fold chart_add_entry entries
       (fold (\<lambda>d data. AList.update (format_yyyy_MM_dd d) [] data) dateRange [])"

definition chartData :: "TimeEntryRow list \<Rightarrow> string \<Rightarrow> string \<Rightarrow> ChartData option" where
  "chartData entries startDate endDate =
     (if entries = [] then None
      else if startDate = [] \<or> endDate = [] then None
      else if length startDate \<noteq> 10 \<or> length endDate \<noteq> 10 then None
      else if \<not> dateRegex startDate \<or> \<not> dateRegex endDate then None
      else
        (case parseISO_date startDate of None \<Rightarrow> None | Some startDateParsed \<Rightarrow>
        (case parseISO_date endDate of None \<Rightarrow> None | Some endDateParsed \<Rightarrow>
           if startDateParsed > endDateParsed then None
           else
             let dateRange = eachDayOfInterval startDateParsed endDateParsed;
                 data = chart_table entries dateRange;
                 uniqueUsers = sort (remdups (map row_full_name entries));
                 keys = sort (map fst data)
             in Some \<lparr>labels = keys,
                      datasets = map (\<lambda>user.
                        \<lparr>ds_label = user,
                         ds_data = map (\<lambda>d. chart_hours data d user) keys,
                         ds_locationData = map (\<lambda>d. chart_locations data d user) keys\<rparr>)
                        uniqueUsers\<rparr>)))"

subsection \<open>\<open>groupedEntries\<close>\<close>

record LocationGroup =
  lg_entries :: "TimeEntryRow list"
  lg_totalHours :: num
  lg_totalExpenses :: rat
  lg_dateRange :: string

record PersonGroup =
  pg_locations :: "(string \<times> LocationGroup) list"
  pg_totalHours :: num
  pg_totalExpenses :: rat
  pg_dateRange :: string

definition group_add_entry ::
  "TimeEntryRow \<Rightarrow> (string \<times> PersonGroup) list \<Rightarrow> (string \<times> PersonGroup) list" where
  "group_add_entry entry groups =
     (let personGroup =
            (case map_of groups (row_full_name entry) of
               None \<Rightarrow> \<lparr>pg_locations = [], pg_totalHours = Some 0, pg_totalExpenses = 0,
                         pg_dateRange = []\<rparr>
             | Some g \<Rightarrow> g);
          locationGroup =
            (case map_of (pg_locations personGroup) (row_location entry) of
               None \<Rightarrow> \<lparr>lg_entries = [], lg_totalHours = Some 0, lg_totalExpenses = 0,
                         lg_dateRange = []\<rparr>
             | Some l \<Rightarrow> l);
          hours = row_duration entry;
          expenses = sum_amounts (row_expenses entry);
          locationGroup' =
            locationGroup\<lparr>lg_entries := lg_entries locationGroup @ [entry],
                           lg_totalHours := js_add (lg_totalHours locationGroup) hours,
                           lg_totalExpenses := lg_totalExpenses locationGroup + expenses\<rparr>;
          personGroup' =
            personGroup\<lparr>pg_locations :=
                            AList.update (row_location entry) locationGroup' (pg_locations personGroup),
                         pg_totalHours := js_add (pg_totalHours personGroup) hours,
                         pg_totalExpenses := pg_totalExpenses personGroup + expenses\<rparr>
      in AList.update (row_full_name entry) personGroup' groups)"

definition month_abbr :: "int \<Rightarrow> string" where
  "month_abbr m =
     [''Jan'', ''Feb'', ''Mar'', ''Apr'', ''May'', ''Jun'', ''Jul'', ''Aug'', ''Sep'', ''Oct'',
      ''Nov'', ''Dec''] ! nat ((m - 1) mod 12)"

text \<open>\<open>format(d, 'MMM d')\<close> and \<open>format(d, 'MMM d, yyyy')\<close>\<close>

definition format_MMM_d :: "int \<Rightarrow> string" where
  "format_MMM_d z = (case civil_from_days z of (y, m, d) \<Rightarrow> month_abbr m @ '' '' @ dec_digits d)"

definition format_MMM_d_yyyy :: "int \<Rightarrow> string" where
  "format_MMM_d_yyyy z =
     (case civil_from_days z of (y, m, d) \<Rightarrow> month_abbr m @ '' '' @ dec_digits d @ '', '' @ pad4 y)"

text \<open>The date range shown for a sorted, non-empty list of dates; the \<open>catch\<close> branch
  joins the raw strings.\<close>

definition date_range_text :: "string \<Rightarrow> string list \<Rightarrow> string" where
  "date_range_text unchanged dates =
     (case dates of
        [] \<Rightarrow> unchanged
      | first # _ \<Rightarrow>
          (case parseISO_date first of
             None \<Rightarrow> first @ '' - '' @ last dates
           | Some f \<Rightarrow>
               (case parseISO_date (last dates) of
                  None \<Rightarrow> first @ '' - '' @ last dates
                | Some l \<Rightarrow>
                    if length dates = 1 then format_MMM_d_yyyy l
                    else format_MMM_d f @ '' - '' @ format_MMM_d_yyyy l)))"

definition finish_location :: "(string \<Rightarrow> string \<Rightarrow> int) \<Rightarrow> LocationGroup \<Rightarrow> LocationGroup" where
  "finish_location localeCompare locationGroup =
     (let sorted_entries =
            sort_by (\<lambda>a b. localeCompare (row_date b) (row_date a)) (lg_entries locationGroup)
      in locationGroup\<lparr>lg_entries := sorted_entries,
                        lg_dateRange :=
                          date_range_text (lg_dateRange locationGroup)
                            (sort (map row_date sorted_entries))\<rparr>)"

definition finish_person :: "(string \<Rightarrow> string \<Rightarrow> int) \<Rightarrow> PersonGroup \<Rightarrow> PersonGroup" where
  "finish_person localeCompare personGroup =
     (let locs = map (\<lambda>(location, locationGroup).
                   (location, finish_location localeCompare locationGroup))
                   (pg_locations personGroup);
          allEntries = concat (map (\<lambda>(location, locationGroup). lg_entries locationGroup) locs)
      in personGroup\<lparr>pg_locations := locs,
                      pg_dateRange :=
                        date_range_text (pg_dateRange personGroup) (sort (map row_date allEntries))\<rparr>)"

definition groupedEntries ::
  "(string \<Rightarrow> string \<Rightarrow> int) \<Rightarrow> TimeEntryRow list \<Rightarrow> (string \<times> PersonGroup) list" where
  "groupedEntries localeCompare entries =
     sort_by (\<lambda>a b. localeCompare (fst a) (fst b))
       (map (\<lambda>(personName, personGroup). (personName, finish_person localeCompare personGroup))
          (fold group_add_entry entries []))"

subsection \<open>\<open>exportToCSV\<close>\<close>

text \<open>\<open>toString\<close> of a number is a parameter: JavaScript prints the shortest decimal
  that reads back as the same double. An entry whose date does not format is skipped
  (the error is caught inside the loop).\<close>

definition export_headers :: "string list" where
  "export_headers =
     [''Date'', ''Employee'', ''Location'', ''Start Time'', ''End Time'', ''Lunch Break'', ''Hours'',
      ''Full Day'', ''Notes'', ''Expense Amount'', ''Expense Description'', ''Receipt URL'']"

definition export_rows :: "(num \<Rightarrow> string) \<Rightarrow> TimeEntryRow \<Rightarrow> string list list" where
  "export_rows toString entry =
     (case format_date_US (row_date entry) of
        None \<Rightarrow> []
      | Some d \<Rightarrow>
          let baseRow =
                [d, row_full_name entry, row_location entry,
                 (if row_is_full_day entry then ''09:00'' else row_start_time entry),
                 (if row_is_full_day entry then ''17:00'' else row_end_time entry),
                 or_empty (row_lunch_break entry),
                 toString (calculateDuration
                   (if row_is_full_day entry then ''09:00'' else row_start_time entry)
                   (if row_is_full_day entry then ''17:00'' else row_end_time entry)
                   (row_lunch_break entry)),
                 (if row_is_full_day entry then ''Yes'' else ''No''),
                 or_empty (row_notes entry)]
          in if row_expenses entry \<noteq> []
             then map (\<lambda>expense.
                    baseRow @ [toString (Some (exp_amount expense)), exp_description expense,
                               or_empty (exp_receipt_url expense)])
                    (row_expenses entry)
             else [baseRow @ [[], [], []]])"

definition exportToCSV :: "(num \<Rightarrow> string) \<Rightarrow> TimeEntryRow list \<Rightarrow> string" where
  "exportToCSV toString entries =
     join [newline]
       (join '','' export_headers #
        map (\<lambda>row. join '','' (map csv_cell row)) (concat (map (export_rows toString) entries)))"


section \<open>Invoice page\<close>

record StandaloneExpense =
  sx_id :: string
  sx_date :: string
  sx_amount :: rat
  sx_description :: string
  sx_location :: string
  sx_receipt_url :: "string option"
  sx_retailer_name :: "string option"

text \<open>\<open>employeeHours\<close> is an object keyed by name: an association list in insertion
  order (names are ordinary keys).\<close>

record LocationSummary =
  totalHours :: num
  totalExpenses :: rat
  employeeHours :: "(string \<times> num) list"
  summary_entries :: "TimeEntryRow list"
  standaloneExpenses :: "StandaloneExpense list"

text \<open>The reducer of \<open>locationSummary\<close>. \<open>if (!acc.employeeHours[name]) ... = 0\<close> also
  resets a total that is 0 or \<open>NaN\<close>.\<close>

definition summary_add_entry :: "LocationSummary \<Rightarrow> TimeEntryRow \<Rightarrow> LocationSummary" where
  "summary_add_entry acc entry =
     (let hours = summaryEntryHours entry;
          current = (case map_of (employeeHours acc) (row_full_name entry) of
                       None \<Rightarrow> Some 0
                     | Some h \<Rightarrow> if truthy_num h then h else Some 0)
      in acc\<lparr>employeeHours :=
                 AList.update (row_full_name entry) (js_add current hours) (employeeHours acc),
              totalHours := js_add (totalHours acc) hours,
              totalExpenses := totalExpenses acc + sum_amounts (row_expenses entry),
              summary_entries := summary_entries acc @ [entry]\<rparr>)"

definition locationSummary :: "TimeEntryRow list \<Rightarrow> StandaloneExpense list \<Rightarrow> LocationSummary" where
  "locationSummary timeEntries standalone =
     (let summary = foldl summary_add_entry
            \<lparr>totalHours = Some 0, totalExpenses = 0, employeeHours = [], summary_entries = [],
             standaloneExpenses = []\<rparr> timeEntries
      in summary\<lparr>totalExpenses :=
                     totalExpenses summary + foldl (\<lambda>sum exp. sum + sx_amount exp) 0 standalone,
                  standaloneExpenses := standalone\<rparr>)"

definition invoice_headers :: "string list" where
  "invoice_headers =
     [''Date'', ''Employee'', ''Start Time'', ''End Time'', ''Lunch Break'', ''Hours'', ''Notes'',
      ''Expense Amount'', ''Expense Description'', ''Retailer'', ''Receipt URL'']"

text \<open>
  The detail rows of one entry in \<open>generateExcel\<close>. \<open>None\<close> is a thrown error: the
  RangeError of \<open>format\<close> on an invalid date, or the TypeError of \<open>toFixed\<close> on a name
  that has no total.
\<close>

definition detail_rows :: "LocationSummary \<Rightarrow> TimeEntryRow \<Rightarrow> string list list option" where
  "detail_rows summary entry =
     (case format_date_US (row_date entry) of
        None \<Rightarrow> None
      | Some d \<Rightarrow>
          (case map_of (employeeHours summary) (row_full_name entry) of
             None \<Rightarrow> None
           | Some employeeTotal \<Rightarrow>
               let baseRow =
                     [d, row_full_name entry,
                      (if row_is_full_day entry then ''09:00'' else row_start_time entry),
                      (if row_is_full_day entry then ''17:00'' else row_end_time entry),
                      or_empty (row_lunch_break entry),
                      toFixed2 employeeTotal,
                      or_empty (row_notes entry)]
               in Some (if row_expenses entry \<noteq> []
                        then map (\<lambda>expense.
                               baseRow @ [toFixed2 (Some (exp_amount expense)), exp_description expense,
                                          or_empty (exp_retailer_name expense),
                                          or_empty (exp_receipt_url expense)])
                               (row_expenses entry)
                        else [baseRow @ [[], [], [], []]])))"

definition standalone_row :: "StandaloneExpense \<Rightarrow> string list option" where
  "standalone_row expense =
     map_option (\<lambda>d. [d, toFixed2 (Some (sx_amount expense)), sx_description expense,
                       or_empty (sx_retailer_name expense), or_empty (sx_receipt_url expense)])
       (format_date_US (sx_date expense))"

text \<open>The rows of \<open>generateExcel\<close>, and the file content. \<open>None\<close> is a thrown error.\<close>

definition invoice_rows :: "string \<Rightarrow> string \<Rightarrow> string \<Rightarrow> LocationSummary \<Rightarrow> string list list option" where
  "invoice_rows selectedLocation startDate endDate summary =
     (case format_date_US startDate of None \<Rightarrow> None | Some s \<Rightarrow>
     (case format_date_US endDate of None \<Rightarrow> None | Some e \<Rightarrow>
     (case those (map (detail_rows summary) (summary_entries summary)) of None \<Rightarrow> None | Some details \<Rightarrow>
     (case those (map standalone_row (standaloneExpenses summary)) of None \<Rightarrow> None | Some extra \<Rightarrow>
        Some ([[''Location Summary:'', selectedLocation],
               [''Period:'', s @ '' - '' @ e],
               [[]],
               [''Total Hours:'', toFixed2 (totalHours summary)],
               [''Total Expenses:'', ''$'' @ toFixed2 (Some (totalExpenses summary))],
               [[]],
               [''Employee Hours Breakdown:'']]
              @ map (\<lambda>(name, hours). [name, toFixed2 hours]) (employeeHours summary)
              @ [[[]], [''Detailed Time Entries:''], invoice_headers]
              @ concat details
              @ (if standaloneExpenses summary \<noteq> []
                 then [[[]], [''Additional Expenses (from Expense Worksheet):''],
                       [''Date'', ''Expense Amount'', ''Expense Description'', ''Retailer'',
                        ''Receipt URL'']] @ extra
                 else []))))))"

definition generateExcel :: "string \<Rightarrow> string \<Rightarrow> string \<Rightarrow> LocationSummary \<Rightarrow> string option" where
  "generateExcel selectedLocation startDate endDate summary =
     map_option (\<lambda>rows. join [newline] (map (\<lambda>row. join '','' (map csv_cell row)) rows))
       (invoice_rows selectedLocation startDate endDate summary)"

section \<open>Estimate worksheet\<close>

subsection \<open>Binary64 numbers\<close>

text \<open>
  The worksheet adds and multiplies amounts with cents, which are not binary fractions,
  so its numbers are modelled as IEEE 754 binary64 values: a finite value is the
  rational it denotes. The sign of a zero is not represented; the worksheet's numbers
  are never negative (\<open>parseCurrencyInput\<close> strips every sign, and the percentage is only
  set to a parsed number that is not negative).
\<close>

datatype double = Finite rat | PosInfinity | NegInfinity | NaN

text \<open>The position of the leading binary (decimal) digit of a positive integer.\<close>

function ilog2 :: "int \<Rightarrow> int" where
  "ilog2 n = (if n < 2 then 0 else 1 + ilog2 (n div 2))"
  by pat_completeness auto
termination
  by (relation "measure nat") auto

declare ilog2.simps [simp del]

function ilog10 :: "int \<Rightarrow> int" where
  "ilog10 n = (if n < 10 then 0 else 1 + ilog10 (n div 10))"
  by pat_completeness auto
termination
  by (relation "measure nat") auto

declare ilog10.simps [simp del]

text \<open>\<open>b\<close> to the power \<open>e\<close> for \<open>e \<ge> 0\<close>, by repeated squaring.\<close>

function int_power :: "rat \<Rightarrow> int \<Rightarrow> rat" where
  "int_power b e =
     (if e \<le> 0 then 1
      else let h = int_power b (e div 2) in if even e then h * h else b * h * h)"
  by pat_completeness auto
termination
  by (relation "measure (\<lambda>(b, e). nat e)") auto

declare int_power.simps [simp del]

definition pow2 :: "int \<Rightarrow> rat" where
  "pow2 e = (if 0 \<le> e then int_power 2 e else 1 / int_power 2 (- e))"

definition pow10 :: "int \<Rightarrow> rat" where
  "pow10 e = (if 0 \<le> e then int_power 10 e else 1 / int_power 10 (- e))"

text \<open>The exponent \<open>e\<close> with \<open>2^e \<le> a < 2^(e+1)\<close>, and the decimal one, for \<open>a > 0\<close>.\<close>

definition exponent2 :: "rat \<Rightarrow> int" where
  "exponent2 a =
     (case quotient_of a of (p, q) \<Rightarrow>
        let e0 = ilog2 p - ilog2 q in if pow2 e0 \<le> a then e0 else e0 - 1)"

definition exponent10 :: "rat \<Rightarrow> int" where
  "exponent10 a =
     (case quotient_of a of (p, q) \<Rightarrow>
        let e0 = ilog10 p - ilog10 q in if pow10 e0 \<le> a then e0 else e0 - 1)"

text \<open>The nearest integer, a tie going to the even one.\<close>

definition round_half_even :: "rat \<Rightarrow> int" where
  "round_half_even y =
     (let f = \<lfloor>y\<rfloor>; r = y - of_int f
      in if r < 1 / 2 then f else if 1 / 2 < r then f + 1 else if even f then f else f + 1)"

text \<open>
  Rounding a real result to binary64 (round to nearest, ties to even): the result is a
  multiple of \<open>2^q\<close>, where \<open>q\<close> is 52 below the exponent of the value (a significand of
  53 bits) and not below \<open>-1074\<close> (subnormal numbers); a result of \<open>2^1024\<close> or more is
  an infinity.
\<close>

definition round_double :: "rat \<Rightarrow> double" where
  "round_double x =
     (if x = 0 then Finite 0
      else
        let a = \<bar>x\<bar>;
            q = max (exponent2 a) (- 1022) - 52;
            r = of_int (round_half_even (a / pow2 q)) * pow2 q
        in if pow2 1024 \<le> r then (if 0 < x then PosInfinity else NegInfinity)
           else Finite (if 0 < x then r else - r))"

text \<open>A rational that is a binary64 value.\<close>

definition is_double :: "rat \<Rightarrow> bool" where
  "is_double x = (round_double x = Finite x)"

text \<open>\<open>a + b\<close>, \<open>a * b\<close> and \<open>a / d\<close> for a positive constant \<open>d\<close> (the source divides by 100
  only).\<close>

definition fadd :: "double \<Rightarrow> double \<Rightarrow> double" where
  "fadd a b =
     (case a of
        NaN \<Rightarrow> NaN
      | Finite x \<Rightarrow> (case b of Finite y \<Rightarrow> round_double (x + y) | _ \<Rightarrow> b)
      | PosInfinity \<Rightarrow> (case b of NaN \<Rightarrow> NaN | NegInfinity \<Rightarrow> NaN | _ \<Rightarrow> PosInfinity)
      | NegInfinity \<Rightarrow> (case b of NaN \<Rightarrow> NaN | PosInfinity \<Rightarrow> NaN | _ \<Rightarrow> NegInfinity))"

definition times_infinity :: "rat \<Rightarrow> bool \<Rightarrow> double" where
  "times_infinity x positive =
     (if x = 0 then NaN else if (0 < x) = positive then PosInfinity else NegInfinity)"

definition fmul :: "double \<Rightarrow> double \<Rightarrow> double" where
  "fmul a b =
     (case a of
        NaN \<Rightarrow> NaN
      | Finite x \<Rightarrow>
          (case b of Finite y \<Rightarrow> round_double (x * y) | NaN \<Rightarrow> NaN
           | PosInfinity \<Rightarrow> times_infinity x True | NegInfinity \<Rightarrow> times_infinity x False)
      | PosInfinity \<Rightarrow>
          (case b of Finite y \<Rightarrow> times_infinity y True | NaN \<Rightarrow> NaN
           | PosInfinity \<Rightarrow> PosInfinity | NegInfinity \<Rightarrow> NegInfinity)
      | NegInfinity \<Rightarrow>
          (case b of Finite y \<Rightarrow> times_infinity y False | NaN \<Rightarrow> NaN
           | PosInfinity \<Rightarrow> NegInfinity | NegInfinity \<Rightarrow> PosInfinity))"

definition fdiv :: "double \<Rightarrow> rat \<Rightarrow> double" where
  "fdiv a d = (case a of Finite x \<Rightarrow> round_double (x / d) | _ \<Rightarrow> a)"

subsection \<open>The decimal text of a number\<close>

text \<open>
  The decimals with \<open>k\<close> significant digits next to \<open>x > 0\<close> that read back as \<open>x\<close>, the
  nearer one first; and the shortest decimal that reads back as \<open>x\<close> (the nearest such
  one among those with the fewest digits). This is the decimal that \<open>JSON.stringify\<close>
  and \<open>toString\<close> write, and that the number formatter starts from. Seventeen digits
  always suffice.
\<close>

definition shortest_candidates :: "rat \<Rightarrow> int \<Rightarrow> rat list" where
  "shortest_candidates x k =
     (let step = pow10 (exponent10 x - k + 1);
          lo = of_int \<lfloor>x / step\<rfloor> * step;
          hi = lo + step;
          ordered = (if x - lo < hi - x then [lo, hi]
                     else if hi - x < x - lo then [hi, lo]
                     else if even \<lfloor>x / step\<rfloor> then [lo, hi] else [hi, lo])
      in filter (\<lambda>d. round_double d = Finite x) ordered)"

function shortest_from :: "rat \<Rightarrow> int \<Rightarrow> rat" where
  "shortest_from x k =
     (if 17 \<le> k then x
      else (case shortest_candidates x k of [] \<Rightarrow> shortest_from x (k + 1) | d # _ \<Rightarrow> d))"
  by pat_completeness auto
termination
  by (relation "measure (\<lambda>(x, k). nat (17 - k))") auto

declare shortest_from.simps [simp del]

definition shortest_decimal :: "rat \<Rightarrow> rat" where
  "shortest_decimal x =
     (if x = 0 then 0 else if x < 0 then - shortest_from (- x) 1 else shortest_from x 1)"

subsection \<open>The worksheet\<close>

text \<open>A cost is the number \<open>parseCurrencyInput\<close> returns, and the overhead percentage a
  number \<open>parseFloat\<close> returned.\<close>

record WorksheetRow =
  ws_id :: string
  item :: string
  cost :: double

definition subtotal :: "WorksheetRow list \<Rightarrow> double" where
  "subtotal rows = foldl (\<lambda>sum row. fadd sum (cost row)) (Finite 0) rows"

definition overheadAmount :: "WorksheetRow list \<Rightarrow> double \<Rightarrow> double" where
  "overheadAmount rows overheadPercentage = fdiv (fmul (subtotal rows) overheadPercentage) 100"

definition total :: "WorksheetRow list \<Rightarrow> double \<Rightarrow> double" where
  "total rows overheadPercentage = fadd (subtotal rows) (overheadAmount rows overheadPercentage)"

text \<open>The object \<open>saveEstimate\<close> sends to the backend (without the user id and the
  timestamp).\<close>

record EstimateData =
  job_name :: string
  items :: "WorksheetRow list"
  overhead_percentage :: double
  est_subtotal :: double
  est_overhead_amount :: double
  est_total :: double

definition estimateData :: "string \<Rightarrow> WorksheetRow list \<Rightarrow> double \<Rightarrow> EstimateData" where
  "estimateData jobName rows overheadPercentage =
     \<lparr>job_name = jobName, items = rows, overhead_percentage = overheadPercentage,
      est_subtotal = subtotal rows,
      est_overhead_amount = overheadAmount rows overheadPercentage,
      est_total = total rows overheadPercentage\<rparr>"

text \<open>
  What the table \<open>estimate_worksheets\<close> keeps of a saved object. A number travels as its
  shortest decimal (\<open>NaN\<close> and the infinities as \<open>null\<close>, which a \<open>NOT NULL\<close> column
  refuses); a column \<open>decimal(p, 2)\<close> rounds it to two decimals, a tie going away from
  zero, and refuses a value that then has more than \<open>p - 2\<close> integer digits. \<open>None\<close> is
  a refused save.
\<close>

definition json_number :: "double \<Rightarrow> rat option" where
  "json_number v = (case v of Finite x \<Rightarrow> Some (shortest_decimal x) | _ \<Rightarrow> None)"

definition decimal_column :: "int \<Rightarrow> rat option \<Rightarrow> rat option" where
  "decimal_column integer_digits v =
     (case v of None \<Rightarrow> None
      | Some x \<Rightarrow>
          let n = toFixed2_cents x
          in if \<bar>n\<bar> < 100 * 10 ^ nat integer_digits then Some (of_int n / 100) else None)"

record StoredEstimate =
  st_overhead_percentage :: rat
  st_subtotal :: rat
  st_overhead_amount :: rat
  st_total :: rat

definition stored_estimate :: "EstimateData \<Rightarrow> StoredEstimate option" where
  "stored_estimate e =
     (case decimal_column 3 (json_number (overhead_percentage e)) of None \<Rightarrow> None | Some p \<Rightarrow>
     (case decimal_column 10 (json_number (est_subtotal e)) of None \<Rightarrow> None | Some s \<Rightarrow>
     (case decimal_column 10 (json_number (est_overhead_amount e)) of None \<Rightarrow> None | Some a \<Rightarrow>
     (case decimal_column 10 (json_number (est_total e)) of None \<Rightarrow> None | Some t \<Rightarrow>
        Some \<lparr>st_overhead_percentage = p, st_subtotal = s, st_overhead_amount = a,
              st_total = t\<rparr>))))"

text \<open>Groups of three digits separated by commas.\<close>

function group3 :: "string \<Rightarrow> string" where
  "group3 s = (if length s \<le> 3 then s
               else group3 (take (length s - 3) s) @ '','' @ drop (length s - 3) s)"
  by pat_completeness auto
termination
  by (relation "measure length") auto

declare group3.simps [simp del]

text \<open>
  \<open>formatCurrency\<close>: \<open>Intl.NumberFormat('en-US', {style: 'currency', currency: 'USD',
  minimumFractionDigits: 2})\<close>. The formatter takes the shortest decimal of the number
  and rounds it to two decimals, a tie going away from zero. The infinity sign is
  written as its three UTF-8 bytes.
\<close>

definition currency_text :: "rat \<Rightarrow> string" where
  "currency_text d =
     (let n = \<bar>toFixed2_cents d\<bar>
      in (if d < 0 then ''-'' else []) @ ''$'' @ group3 (dec_digits (n div 100)) @ ''.'' @
         pad2 (n mod 100))"

definition infinity_sign :: string where
  "infinity_sign = [CHR 0xE2, CHR 0x88, CHR 0x9E]"

definition formatCurrency :: "double \<Rightarrow> string" where
  "formatCurrency v =
     (case v of
        Finite x \<Rightarrow> currency_text (shortest_decimal x)
      | PosInfinity \<Rightarrow> ''$'' @ infinity_sign
      | NegInfinity \<Rightarrow> ''-$'' @ infinity_sign
      | NaN \<Rightarrow> ''$NaN'')"


section \<open>Well-formed inputs and the specification's rounding\<close>

text \<open>A \<open>time\<close> column as the backend returns it: \<open>HH:MM:SS\<close>.\<close>

definition hhmmss :: "int \<Rightarrow> int \<Rightarrow> int \<Rightarrow> string" where
  "hhmmss h m s = pad2 h @ CHR '':'' # pad2 m @ CHR '':'' # pad2 s"

text \<open>A time of day at a whole minute, in either spelling.\<close>

definition minute_time :: "int \<Rightarrow> int \<Rightarrow> string set" where
  "minute_time h m = {hhmm h m, hhmmss h m 0}"

text \<open>The minutes of a partial day: end minus start, minus the lunch break if one applies.\<close>

definition worked_minutes :: "int \<Rightarrow> int \<Rightarrow> int \<Rightarrow> int \<Rightarrow> bool \<Rightarrow> int \<Rightarrow> int \<Rightarrow> int" where
  "worked_minutes h1 m1 h2 m2 lunch lh lm =
     (h2 * 60 + m2) - (h1 * 60 + m1) - (if lunch then lh * 60 + lm else 0)"



text \<open>The specification's "rounded to 2 decimal places using standard rounding": the
  nearest multiple of 1/100, a tie going up.\<close>

definition spec_round2 :: "rat \<Rightarrow> rat" where
  "spec_round2 x = of_int (round (x * 100)) / 100"

section \<open>Example inputs\<close>

definition example_session :: Session where
  "example_session =
     \<lparr>isAdmin = False, userId = ''u-1'',
      currentUserProfile = \<lparr>profile_id = ''u-1'', profile_full_name = ''Alex Reed''\<rparr>\<rparr>"

text \<open>The entry of \<open>createDefaultEntry()\<close>: a full day with a 30 minute lunch break.\<close>

definition full_day_entry :: TimeEntry where
  "full_day_entry =
     \<lparr>entry_id = ''e-1'', date = ''2024-05-01'', is_full_day = True, start_time = ''08:00'',
      end_time = ''16:30'', location = ''Elm Street'', has_lunch_break = True,
      lunch_break = Some ''00:30'', entry_notes = Some [], user_id = ''u-1'',
      full_name = ''Alex Reed'', expenses = []\<rparr>"

text \<open>A partial day from 09:00 to 17:30 with a 30 minute lunch break, and one whose end
  is earlier than its start.\<close>

definition partial_day_entry :: TimeEntry where
  "partial_day_entry =
     full_day_entry\<lparr>is_full_day := False, start_time := ''09:00'', end_time := ''17:30''\<rparr>"

definition backwards_entry :: TimeEntry where
  "backwards_entry =
     full_day_entry\<lparr>is_full_day := False, start_time := ''17:00'', end_time := ''09:00''\<rparr>"



definition example_expense :: Expense where
  "example_expense =
     \<lparr>amount = 25 / 2, description = ''Paint'', receipt_url = None, receipt_image_url = None,
      retailer_id = None, retailer_name = []\<rparr>"


text \<open>An entry whose expense names a retailer that has no id yet.\<close>

definition entry_with_retailer :: TimeEntry where
  "entry_with_retailer =
     partial_day_entry\<lparr>expenses := [example_expense\<lparr>retailer_name := ''Depot''\<rparr>]\<rparr>"

text \<open>A stand-in for \<open>toString\<close> where the printed number does not matter.\<close>

definition no_digits :: "num \<Rightarrow> string" where
  "no_digits n = []"

definition empty_backend :: Backend where
  "empty_backend =
     \<lparr>time_entries = [], expenses_table = [], retailers = [], receipts = [], requests = 0\<rparr>"


definition fails_at :: "nat \<Rightarrow> Env" where
  "fails_at k = \<lparr>fails = (\<lambda>i. i = k), publicUrl = (\<lambda>url. ''https://files.example/'' @ url)\<rparr>"

text \<open>An entry whose expense has a receipt still to be uploaded and names a retailer
  that has no id yet; an entry with two expenses; and an environment in which the
  requests number 1, 2 and 7 fail.\<close>

definition entry_with_receipt :: TimeEntry where
  "entry_with_receipt =
     partial_day_entry\<lparr>expenses :=
       [example_expense\<lparr>receipt_url := Some ''blob:receipt-1'', retailer_name := ''Depot''\<rparr>]\<rparr>"

definition entry_two_expenses :: TimeEntry where
  "entry_two_expenses =
     full_day_entry\<lparr>date := ''2024-05-02'',
       expenses := [example_expense\<lparr>description := ''Brushes''\<rparr>,
                    example_expense\<lparr>description := ''Tape''\<rparr>]\<rparr>"

definition example_failures :: Env where
  "example_failures =
     \<lparr>fails = (\<lambda>i. i = 1 \<or> i = 2 \<or> i = 7), publicUrl = (\<lambda>url. ''https://files.example/'' @ url)\<rparr>"

section \<open>Stored rows across a submission\<close>

text \<open>No row of the three tables is removed or changed from \<open>b\<close> to \<open>b'\<close>: each table of
  \<open>b\<close> is an initial segment of the table of \<open>b'\<close>.\<close>

definition no_rows_lost :: "Backend \<Rightarrow> Backend \<Rightarrow> bool" where
  "no_rows_lost b b' =
     (prefix (time_entries b) (time_entries b') \<and> prefix (expenses_table b) (expenses_table b') \<and>
      prefix (retailers b) (retailers b'))"

text \<open>The rows that a run of successful entries leaves in \<open>time_entries\<close>, the first with
  id \<open>n\<close>.\<close>

fun written_rows :: "Session \<Rightarrow> TimeEntry list \<Rightarrow> nat \<Rightarrow> TimeEntryRow list" where
  "written_rows ss [] n = []"
| "written_rows ss (entry # rest) n = time_entry_row ss entry n # written_rows ss rest (Suc n)"

text \<open>Whether the loop makes an upload request and a retailer lookup request for an
  expense, and the number of the first request after them (the retailer insert, or the
  expense insert when no retailer has to be created).\<close>

definition upload_requested :: "Expense \<Rightarrow> bool" where
  "upload_requested expense =
     (case receipt_url expense of None \<Rightarrow> False | Some url \<Rightarrow> url \<noteq> [] \<and> prefix ''blob:'' url)"

definition lookup_requested :: "Expense \<Rightarrow> bool" where
  "lookup_requested expense = (retailer_name expense \<noteq> [] \<and> retailer_id expense = None)"

definition first_insert :: "Expense \<Rightarrow> Backend \<Rightarrow> nat" where
  "first_insert expense b =
     requests b + (if upload_requested expense then 1 else 0) + (if lookup_requested expense then 1 else 0)"

section \<open>Reading CSV back\<close>

text \<open>The inside of a quoted cell: every quote character doubled.\<close>

definition escape_quotes :: "string \<Rightarrow> string" where
  "escape_quotes cell = concat (map (\<lambda>c. if c = dquote then [dquote, dquote] else [c]) cell)"

text \<open>
  Reading a line of quoted fields back, as standard CSV quoting prescribes: a field
  starts with a quote; inside it a doubled quote is one quote character and a single
  quote ends the field; a comma after the closing quote starts the next field.
\<close>

datatype reader = Start | Inside string | AfterQuote string

fun read_fields :: "reader \<Rightarrow> string \<Rightarrow> string list option" where
  "read_fields Start [] = None"
| "read_fields Start (c # cs) = (if c = dquote then read_fields (Inside []) cs else None)"
| "read_fields (Inside acc) [] = None"
| "read_fields (Inside acc) (c # cs) =
     (if c = dquote then read_fields (AfterQuote acc) cs else read_fields (Inside (acc @ [c])) cs)"
| "read_fields (AfterQuote acc) [] = Some [acc]"
| "read_fields (AfterQuote acc) (c # cs) =
     (if c = dquote then read_fields (Inside (acc @ [dquote])) cs
      else if c = CHR '','' then map_option ((#) acc) (read_fields Start cs)
      else None)"

definition csv_read_line :: "string \<Rightarrow> string list option" where
  "csv_read_line s = read_fields Start s"

definition quoted_example :: string where
  \<open>quoted_example = ''Paint, 2" brush "deluxe"''\<close>

text \<open>The rows of the specification's worksheet example: 10.00 and 20.50. Rows of 0.10
  and 0.20, and a row of 0.70: the costs are the doubles that \<open>parseFloat\<close> reads from
  these decimals.\<close>

definition example_rows :: "WorksheetRow list" where
  "example_rows =
     [\<lparr>ws_id = ''1'', item = ''Lumber'', cost = Finite 10\<rparr>,
      \<lparr>ws_id = ''2'', item = ''Paint'', cost = Finite (41 / 2)\<rparr>]"

definition dime_rows :: "WorksheetRow list" where
  "dime_rows =
     [\<lparr>ws_id = ''1'', item = ''Screws'', cost = round_double (1 / 10)\<rparr>,
      \<lparr>ws_id = ''2'', item = ''Nails'', cost = round_double (1 / 5)\<rparr>]"

definition seventy_cent_rows :: "WorksheetRow list" where
  "seventy_cent_rows = [\<lparr>ws_id = ''1'', item = ''Washer'', cost = round_double (7 / 10)\<rparr>]"

section \<open>Aggregates as sums\<close>

text \<open>The value of a number that is not \<open>NaN\<close> (0 stands in for \<open>NaN\<close>).\<close>

definition hours_value :: "num \<Rightarrow> rat" where
  "hours_value a = (case a of None \<Rightarrow> 0 | Some x \<Rightarrow> x)"

text \<open>The summed hours, under the calculator \<open>f\<close>, of the entries that carry a display
  name; the user id plays no part.\<close>

definition name_hours :: "(TimeEntryRow \<Rightarrow> num) \<Rightarrow> TimeEntryRow list \<Rightarrow> string \<Rightarrow> rat" where
  "name_hours f entries name =
     sum_list (map (\<lambda>entry. hours_value (f entry)) (filter (\<lambda>entry. row_full_name entry = name) entries))"

text \<open>The total accumulated for a name so far, and the invariant that no total is
  \<open>NaN\<close>.\<close>

definition current_total :: "LocationSummary \<Rightarrow> string \<Rightarrow> rat" where
  "current_total acc name =
     (case map_of (employeeHours acc) name of None \<Rightarrow> 0 | Some h \<Rightarrow> hours_value h)"

definition totals_defined :: "LocationSummary \<Rightarrow> bool" where
  "totals_defined acc = (\<forall>name. map_of (employeeHours acc) name \<noteq> Some None)"

text \<open>The hours accumulated in the person group of a name so far.\<close>

definition group_total :: "(string \<times> PersonGroup) list \<Rightarrow> string \<Rightarrow> num" where
  "group_total groups name =
     (case map_of groups name of None \<Rightarrow> Some 0 | Some g \<Rightarrow> pg_totalHours g)"

text \<open>The accumulated hours in the chart table for a date and a user, if there is such
  a cell.\<close>

definition cell_hours :: "ChartTable \<Rightarrow> string \<Rightarrow> string \<Rightarrow> num option" where
  "cell_hours data d user =
     (case map_of data d of None \<Rightarrow> None | Some users \<Rightarrow> map_option ud_hours (map_of users user))"

text \<open>The value charted for a date and a user: the sum of the hours of the matching
  entries, with 0 in place of a sum that is 0 or \<open>NaN\<close> (and so 0 when nothing
  matches).\<close>

definition day_hours :: "TimeEntryRow list \<Rightarrow> string \<Rightarrow> string \<Rightarrow> num" where
  "day_hours entries d user =
     (let sum = js_sum (map row_duration
                  (filter (\<lambda>entry. row_date entry = d \<and> row_full_name entry = user) entries))
      in if truthy_num sum then sum else Some 0)"

text \<open>Three stored rows: two of them carry the same display name under different user
  ids; they fall on the first and the third day of a three-day range.\<close>

definition row_a :: TimeEntryRow where
  "row_a =
     \<lparr>row_id = 0, row_date = ''2024-05-01'', row_start_time = ''09:00:00'',
      row_end_time = ''17:30:00'', row_location = ''Elm Street'',
      row_lunch_break = Some ''00:30:00'', row_notes = None, row_user_id = ''u-1'',
      row_full_name = ''Alex Reed'', row_is_full_day = False, row_expenses = []\<rparr>"

definition row_b :: TimeEntryRow where
  "row_b =
     \<lparr>row_id = 1, row_date = ''2024-05-03'', row_start_time = ''09:00:00'',
      row_end_time = ''13:00:00'', row_location = ''Elm Street'',
      row_lunch_break = None, row_notes = None, row_user_id = ''u-2'',
      row_full_name = ''Alex Reed'', row_is_full_day = False, row_expenses = []\<rparr>"

definition row_c :: TimeEntryRow where
  "row_c =
     \<lparr>row_id = 2, row_date = ''2024-05-01'', row_start_time = ''10:00:00'',
      row_end_time = ''12:00:00'', row_location = ''Elm Street'',
      row_lunch_break = None, row_notes = None, row_user_id = ''u-3'',
      row_full_name = ''Sam Hill'', row_is_full_day = False, row_expenses = []\<rparr>"

definition example_entries :: "TimeEntryRow list" where
  "example_entries = [row_a, row_c, row_b]"



text \<open>A comparator by code units, to run the examples with.\<close>

definition compare_strings :: "string \<Rightarrow> string \<Rightarrow> int" where
  "compare_strings a b = (if a < b then - 1 else if a = b then 0 else 1)"

section \<open>Parsing well-formed times\<close>

lemma digit_of_digit_char: "0 \<le> d \<Longrightarrow> d < 10 \<Longrightarrow> digit_of (digit_char d) = Some d"
proof -
  assume "0 \<le> d" "d < 10"
  then have "d = 0 \<or> d = 1 \<or> d = 2 \<or> d = 3 \<or> d = 4 \<or> d = 5 \<or> d = 6 \<or> d = 7 \<or> d = 8 \<or> d = 9"
    by arith
  then show ?thesis by (elim disjE) (simp_all add: digit_of_def digit_char_def)
qed

lemma digit_char_not_colon: "digit_char d \<noteq> CHR '':''"
proof -
  have "0 \<le> d mod 10" "d mod 10 < 10" by simp_all
  then have "d mod 10 = 0 \<or> d mod 10 = 1 \<or> d mod 10 = 2 \<or> d mod 10 = 3 \<or> d mod 10 = 4 \<or>
      d mod 10 = 5 \<or> d mod 10 = 6 \<or> d mod 10 = 7 \<or> d mod 10 = 8 \<or> d mod 10 = 9"
    by arith
  then show ?thesis unfolding digit_char_def by (elim disjE) simp_all
qed

lemma digit_char_mod: "digit_char (n mod 10) = digit_char n"
  by (simp add: digit_char_def)

lemma two_digits_pad2:
  assumes "0 \<le> n" "n < 100"
  shows "two_digits (digit_char (n div 10)) (digit_char n) = Some n"
proof -
  have a: "digit_of (digit_char (n div 10)) = Some (n div 10)"
    using assms by (intro digit_of_digit_char) auto
  have b: "digit_of (digit_char n) = Some (n mod 10)"
    using digit_of_digit_char [of "n mod 10"] by (simp add: digit_char_mod)
  show ?thesis by (simp add: two_digits_def a b)
qed

lemma parseISO_time_hhmm:
  assumes "0 \<le> h" "h < 24" "0 \<le> m" "m < 60"
  shows "parseISO_time (hhmm h m) = Some (h * 3600 + m * 60)"
  using assms by (simp add: parseISO_time_def hhmm_def pad2_def two_digits_pad2 time_value_def validateTime_def)

lemma split_colon_hhmm: "split_colon (hhmm h m) = [pad2 h, pad2 m]"
  by (simp add: hhmm_def pad2_def digit_char_not_colon)

lemma Number_str_pad2: "0 \<le> n \<Longrightarrow> n < 100 \<Longrightarrow> Number_str (pad2 n) = Some (of_int n)"
proof -
  assume n: "0 \<le> n" "n < 100"
  have a: "digit_of (digit_char (n div 10)) = Some (n div 10)"
    using n by (intro digit_of_digit_char) auto
  have b: "digit_of (digit_char n) = Some (n mod 10)"
    using digit_of_digit_char [of "n mod 10"] by (simp add: digit_char_mod)
  show ?thesis by (simp add: Number_str_def pad2_def a b)
qed

lemma lunch_minutes_hhmm:
  assumes "0 \<le> h" "h < 100" "0 \<le> m" "m < 100"
  shows "lunch_minutes (hhmm h m) = Some (of_int (h * 60 + m))"
  using assms by (simp add: lunch_minutes_def split_colon_hhmm Number_str_pad2 js_add_def js_mul_def)

lemma hhmm_not_empty: "hhmm h m \<noteq> []"
  by (simp add: hhmm_def pad2_def)

lemma trunc_div_60: "trunc_div ((h2 * 3600 + m2 * 60) - (h1 * 3600 + m1 * 60)) 60 = (h2 * 60 + m2) - (h1 * 60 + m1)"
proof -
  have "(h2 * 3600 + m2 * 60) - (h1 * 3600 + m1 * 60) = ((h2 * 60 + m2) - (h1 * 60 + m1)) * 60"
    by simp
  then show ?thesis by (simp add: trunc_div_def)
qed

lemma toFixed2_cents_minutes:
  "toFixed2_cents (of_int m / 60) = (if m < 0 then - ((3 - 10 * m) div 6) else (10 * m + 3) div 6)"
proof -
  have a: "(of_int m / 60 :: rat) * 100 + 1 / 2 = of_int (10 * m + 3) / of_int 6" by (simp add: field_simps)
  have b: "- (of_int m / 60 :: rat) * 100 + 1 / 2 = of_int (3 - 10 * m) / of_int 6" by (simp add: field_simps)
  have c: "(of_int m / 60 :: rat) < 0 \<longleftrightarrow> m < 0" by (simp add: field_simps)
  show ?thesis unfolding toFixed2_cents_def c a b floor_divide_of_int_eq by simp
qed

lemma round_minutes: "round ((of_int m / 60 :: rat) * 100) = (10 * m + 3) div 6"
proof -
  have a: "(of_int m / 60 :: rat) * 100 + 1 / 2 = of_int (10 * m + 3) / of_int 6" by (simp add: field_simps)
  show ?thesis unfolding round_def a floor_divide_of_int_eq by simp
qed

lemma toFixed2_cents_round: "toFixed2_cents (of_int m / 60) = round ((of_int m / 60 :: rat) * 100)"
proof -
  have "(if m < 0 then - ((3 - 10 * m) div 6) else (10 * m + 3) div 6) = (10 * m + 3) div 6"
    by presburger
  then show ?thesis unfolding round_minutes toFixed2_cents_minutes by simp
qed

lemma Number_toFixed2_minutes:
  "Number_toFixed2 (Some (of_int m / 60)) = Some (spec_round2 (of_int m / 60))"
  unfolding Number_toFixed2_def spec_round2_def by (simp only: option.case toFixed2_cents_round)


lemma parseISO_time_hhmmss:
  assumes "0 \<le> h" "h < 24" "0 \<le> m" "m < 60" "0 \<le> s" "s < 60"
  shows "parseISO_time (hhmmss h m s) = Some (h * 3600 + m * 60 + s)"
  using assms by (simp add: parseISO_time_def hhmmss_def pad2_def two_digits_pad2 time_value_def validateTime_def)

lemma split_colon_hhmmss: "split_colon (hhmmss h m s) = [pad2 h, pad2 m, pad2 s]"
  by (simp add: hhmmss_def pad2_def digit_char_not_colon)

lemma lunch_minutes_hhmmss:
  assumes "0 \<le> h" "h < 100" "0 \<le> m" "m < 100" "0 \<le> s" "s < 100"
  shows "lunch_minutes (hhmmss h m s) = Some (of_int (h * 60 + m))"
  using assms by (simp add: lunch_minutes_def split_colon_hhmmss Number_str_pad2 js_add_def js_mul_def)

lemma hhmmss_not_empty: "hhmmss h m s \<noteq> []"
  by (simp add: hhmmss_def pad2_def)

lemma parseISO_time_minute:
  assumes "t \<in> minute_time h m" "0 \<le> h" "h < 24" "0 \<le> m" "m < 60"
  shows "parseISO_time t = Some (h * 3600 + m * 60)"
  using assms parseISO_time_hhmm [of h m] parseISO_time_hhmmss [of h m 0]
  by (auto simp: minute_time_def)

lemma lunch_minutes_minute:
  assumes "t \<in> minute_time h m" "0 \<le> h" "h < 100" "0 \<le> m" "m < 100"
  shows "lunch_minutes t = Some (of_int (h * 60 + m))"
  using assms lunch_minutes_hhmm [of h m] lunch_minutes_hhmmss [of h m 0]
  by (auto simp: minute_time_def)

lemma minute_time_not_empty: "t \<in> minute_time h m \<Longrightarrow> t \<noteq> []"
  using hhmm_not_empty [of h m] hhmmss_not_empty [of h m 0] by (auto simp: minute_time_def)

lemma differenceInMinutes_minute:
  "differenceInMinutes (Some (h2 * 3600 + m2 * 60)) (Some (h1 * 3600 + m1 * 60)) =
     Some (of_int ((h2 * 60 + m2) - (h1 * 60 + m1)))"
  unfolding differenceInMinutes_def by (simp only: option.case trunc_div_60)

lemma calculateDuration_minute:
  assumes s: "start \<in> minute_time h1 m1" "0 \<le> h1" "h1 < 24" "0 \<le> m1" "m1 < 60"
    and e: "end' \<in> minute_time h2 m2" "0 \<le> h2" "h2 < 24" "0 \<le> m2" "m2 < 60"
    and l: "lunchBreak = None \<or> (\<exists>t \<in> minute_time lh lm. lunchBreak = Some t)" "0 \<le> lh" "lh < 100" "0 \<le> lm" "lm < 100"
  shows "calculateDuration start end' lunchBreak =
           Some (of_int (worked_minutes h1 m1 h2 m2 (lunchBreak \<noteq> None) lh lm) / 60)"
proof -
  have ps: "parseISO_time start = Some (h1 * 3600 + m1 * 60)" using s by (rule parseISO_time_minute)
  have pe: "parseISO_time end' = Some (h2 * 3600 + m2 * 60)" using e by (rule parseISO_time_minute)
  show ?thesis
  proof (cases lunchBreak)
    case None
    then show ?thesis
      by (simp add: calculateDuration_def ps pe differenceInMinutes_minute truthy_str_def js_div_def worked_minutes_def)
  next
    case (Some t)
    then have t: "t \<in> minute_time lh lm" using l(1) by auto
    have lm: "lunch_minutes t = Some (of_int (lh * 60 + lm))" using t l(2-5) by (rule lunch_minutes_minute)
    show ?thesis using Some minute_time_not_empty [OF t]
      by (simp add: calculateDuration_def ps pe differenceInMinutes_minute truthy_str_def or_empty_def lm js_sub_def js_div_def worked_minutes_def)
  qed
qed


lemma calculateEntryHours_minute:
  assumes f: "\<not> is_full_day entry"
    and s: "start_time entry \<in> minute_time h1 m1" "0 \<le> h1" "h1 < 24" "0 \<le> m1" "m1 < 60"
    and e: "end_time entry \<in> minute_time h2 m2" "0 \<le> h2" "h2 < 24" "0 \<le> m2" "m2 < 60"
    and l: "lunch_break entry = None \<or> (\<exists>t \<in> minute_time lh lm. lunch_break entry = Some t)"
      "0 \<le> lh" "lh < 100" "0 \<le> lm" "lm < 100"
  shows "calculateEntryHours entry =
           Number_toFixed2 (Some (of_int (worked_minutes h1 m1 h2 m2
             (has_lunch_break entry \<and> lunch_break entry \<noteq> None) lh lm) / 60))"
proof -
  have ps: "parseISO_time (start_time entry) = Some (h1 * 3600 + m1 * 60)"
    using s by (rule parseISO_time_minute)
  have pe: "parseISO_time (end_time entry) = Some (h2 * 3600 + m2 * 60)"
    using e by (rule parseISO_time_minute)
  show ?thesis
  proof (cases "lunch_break entry")
    case None
    then show ?thesis using f
      by (simp add: calculateEntryHours_def ps pe differenceInMinutes_minute truthy_str_def
          js_div_def worked_minutes_def)
  next
    case (Some t)
    then have t: "t \<in> minute_time lh lm" using l(1) by auto
    have lm: "lunch_minutes t = Some (of_int (lh * 60 + lm))"
      using t l(2-5) by (rule lunch_minutes_minute)
    show ?thesis using Some minute_time_not_empty [OF t] f
      by (simp add: calculateEntryHours_def ps pe differenceInMinutes_minute truthy_str_def
          or_empty_def lm js_sub_def js_div_def worked_minutes_def)
  qed
qed

lemma calculateTotalHours_minute:
  assumes f: "\<not> row_is_full_day entry"
    and s: "row_start_time entry \<in> minute_time h1 m1" "0 \<le> h1" "h1 < 24" "0 \<le> m1" "m1 < 60"
    and e: "row_end_time entry \<in> minute_time h2 m2" "0 \<le> h2" "h2 < 24" "0 \<le> m2" "m2 < 60"
    and l: "row_lunch_break entry = None \<or> (\<exists>t \<in> minute_time lh lm. row_lunch_break entry = Some t)"
      "0 \<le> lh" "lh < 100" "0 \<le> lm" "lm < 100"
  shows "calculateTotalHours entry =
           Number_toFixed2 (Some (of_int (worked_minutes h1 m1 h2 m2
             (row_lunch_break entry \<noteq> None) lh lm) / 60))"
proof -
  have ps: "parseISO_time (row_start_time entry) = Some (h1 * 3600 + m1 * 60)"
    using s by (rule parseISO_time_minute)
  have pe: "parseISO_time (row_end_time entry) = Some (h2 * 3600 + m2 * 60)"
    using e by (rule parseISO_time_minute)
  show ?thesis
  proof (cases "row_lunch_break entry")
    case None
    then show ?thesis using f
      by (simp add: calculateTotalHours_def ps pe differenceInMinutes_minute truthy_str_def
          js_div_def worked_minutes_def)
  next
    case (Some t)
    then have t: "t \<in> minute_time lh lm" using l(1) by auto
    have lm: "lunch_minutes t = Some (of_int (lh * 60 + lm))"
      using t l(2-5) by (rule lunch_minutes_minute)
    show ?thesis using Some minute_time_not_empty [OF t] f
      by (simp add: calculateTotalHours_def ps pe differenceInMinutes_minute truthy_str_def
          or_empty_def lm js_sub_def js_div_def worked_minutes_def)
  qed
qed

lemma spec_round2_negative:
  assumes "m < 0"
  shows "spec_round2 (of_int m / 60) < 0"
proof -
  have "(10 * m + 3) div 6 < 0" using assms by presburger
  then show ?thesis unfolding spec_round2_def round_minutes by simp
qed

section \<open>Claims about the duration calculators\<close>

text \<open>
  C1. For every full-day entry, every view that computes the duration (entry form,
  admin table, invoice summary, activity dashboard) gives 7.5 hours with a lunch break
  and 8.0 without, whatever start and end times are stored.

  The entry form and the admin table do. The dashboard's \<open>calculateDuration\<close> does not
  look at the full-day flag: on the row that the form stores for its default entry
  (08:00 to 16:30, lunch 00:30) it gives 8 hours where the form and the admin table give
  7.5, and 8.5 hours without a lunch break where they give 8. The invoice summary
  derives the hours from 09:00 to 17:00 minus the lunch break, so a 45 minute lunch
  gives 7.25 there. The theorem evaluates the four calculators on these rows.
\<close>

theorem C1_full_day_divergence:
  "calculateEntryHours full_day_entry = Some (15 / 2) \<and>
   calculateTotalHours (time_entry_row example_session full_day_entry 0) = Some (15 / 2) \<and>
   row_duration (time_entry_row example_session full_day_entry 0) = Some 8 \<and>
   calculateEntryHours (full_day_entry\<lparr>has_lunch_break := False, lunch_break := None\<rparr>) = Some 8 \<and>
   row_duration (time_entry_row example_session
     (full_day_entry\<lparr>has_lunch_break := False, lunch_break := None\<rparr>) 0) = Some (17 / 2) \<and>
   calculateEntryHours (full_day_entry\<lparr>lunch_break := Some ''00:45''\<rparr>) = Some (15 / 2) \<and>
   summaryEntryHours (time_entry_row example_session
     (full_day_entry\<lparr>lunch_break := Some ''00:45''\<rparr>) 0) = Some (29 / 4)"
  by code_simp

text \<open>
  C2. For a partial-day entry the entry form (\<open>calculateEntryHours\<close>) and the admin
  table (\<open>calculateTotalHours\<close>) return the minutes from start to end, minus the lunch
  break when one is recorded, divided by 60 and rounded to two decimals. The times are
  times of day at a whole minute, as a time input gives them (\<open>HH:MM\<close>) or as the
  backend returns them (\<open>HH:MM:00\<close>). In the form a lunch break is recorded when the box
  is ticked and a break is chosen; in a stored row when the column is not null.
\<close>

theorem C2_partial_day_duration:
  assumes e: "\<not> is_full_day entry" "start_time entry \<in> minute_time h1 m1"
      "end_time entry \<in> minute_time h2 m2"
      "lunch_break entry = None \<or> (\<exists>t \<in> minute_time lh lm. lunch_break entry = Some t)"
    and r: "\<not> row_is_full_day row" "row_start_time row \<in> minute_time h1 m1"
      "row_end_time row \<in> minute_time h2 m2"
      "row_lunch_break row = None \<or> (\<exists>t \<in> minute_time lh lm. row_lunch_break row = Some t)"
    and b: "0 \<le> h1" "h1 < 24" "0 \<le> m1" "m1 < 60" "0 \<le> h2" "h2 < 24" "0 \<le> m2" "m2 < 60"
      "0 \<le> lh" "lh < 100" "0 \<le> lm" "lm < 100"
  shows "calculateEntryHours entry =
           Some (spec_round2 (of_int (worked_minutes h1 m1 h2 m2
             (has_lunch_break entry \<and> lunch_break entry \<noteq> None) lh lm) / 60)) \<and>
         calculateTotalHours row =
           Some (spec_round2 (of_int (worked_minutes h1 m1 h2 m2
             (row_lunch_break row \<noteq> None) lh lm) / 60))"
  unfolding calculateEntryHours_minute [OF e(1) e(2) b(1-4) e(3) b(5-8) e(4) b(9-12)]
    calculateTotalHours_minute [OF r(1) r(2) b(1-4) r(3) b(5-8) r(4) b(9-12)]
    Number_toFixed2_minutes
  by simp

text \<open>The example of the specification: 09:00 to 17:30 with a 30 minute lunch break is
  exactly 8 hours.\<close>

theorem C2_partial_day_duration_witness:
  "\<not> is_full_day partial_day_entry \<and>
   start_time partial_day_entry \<in> minute_time 9 0 \<and>
   end_time partial_day_entry \<in> minute_time 17 30 \<and>
   (\<exists>t \<in> minute_time 0 30. lunch_break partial_day_entry = Some t) \<and>
   has_lunch_break partial_day_entry \<and>
   calculateEntryHours partial_day_entry = Some 8 \<and>
   calculateTotalHours (time_entry_row example_session partial_day_entry 0) = Some 8"
proof -
  let ?row = "time_entry_row example_session partial_day_entry 0"
  have e: "\<not> is_full_day partial_day_entry" "start_time partial_day_entry \<in> minute_time 9 0"
    "end_time partial_day_entry \<in> minute_time 17 30"
    "lunch_break partial_day_entry = None \<or> (\<exists>t \<in> minute_time 0 30. lunch_break partial_day_entry = Some t)"
    "has_lunch_break partial_day_entry" "lunch_break partial_day_entry \<noteq> None"
    by (simp_all add: partial_day_entry_def full_day_entry_def minute_time_def hhmm_def pad2_def digit_char_def)
  have r: "\<not> row_is_full_day ?row" "row_start_time ?row \<in> minute_time 9 0"
    "row_end_time ?row \<in> minute_time 17 30"
    "row_lunch_break ?row = None \<or> (\<exists>t \<in> minute_time 0 30. row_lunch_break ?row = Some t)"
    "row_lunch_break ?row \<noteq> None"
    by (simp_all add: time_entry_row_def partial_day_entry_def full_day_entry_def minute_time_def hhmm_def pad2_def digit_char_def)
  have v: "spec_round2 (of_int (worked_minutes 9 0 17 30 True 0 30) / 60) = 8"
    by (simp add: spec_round2_def worked_minutes_def)
  from C2_partial_day_duration [OF e(1-4) r(1-4)]
  have "calculateEntryHours partial_day_entry = Some 8 \<and> calculateTotalHours ?row = Some 8"
    using e(5,6) r(5) v by simp
  then show ?thesis using e by (simp add: partial_day_entry_def full_day_entry_def minute_time_def hhmm_def pad2_def digit_char_def)
qed

text \<open>
  C8. For a partial-day entry whose end is earlier than its start the calculators raise
  no error and return a negative number: the signed difference in minutes, minus any
  lunch break, divided by 60 (and rounded to two decimals by the entry form and the
  admin table). The result is a number (not \<open>NaN\<close>) for all such well-formed times.
\<close>

theorem C8_end_before_start_negative:
  assumes e: "\<not> is_full_day entry" "start_time entry \<in> minute_time h1 m1"
      "end_time entry \<in> minute_time h2 m2"
      "lunch_break entry = None \<or> (\<exists>t \<in> minute_time lh lm. lunch_break entry = Some t)"
    and r: "\<not> row_is_full_day row" "row_start_time row \<in> minute_time h1 m1"
      "row_end_time row \<in> minute_time h2 m2"
      "row_lunch_break row = None \<or> (\<exists>t \<in> minute_time lh lm. row_lunch_break row = Some t)"
    and b: "0 \<le> h1" "h1 < 24" "0 \<le> m1" "m1 < 60" "0 \<le> h2" "h2 < 24" "0 \<le> m2" "m2 < 60"
      "0 \<le> lh" "lh < 100" "0 \<le> lm" "lm < 100"
    and lt: "h2 * 60 + m2 < h1 * 60 + m1"
  shows "(\<exists>x. calculateEntryHours entry = Some x \<and> x < 0 \<and>
            x = spec_round2 (of_int (worked_minutes h1 m1 h2 m2
                  (has_lunch_break entry \<and> lunch_break entry \<noteq> None) lh lm) / 60)) \<and>
         (\<exists>x. calculateTotalHours row = Some x \<and> x < 0 \<and>
            x = spec_round2 (of_int (worked_minutes h1 m1 h2 m2 (row_lunch_break row \<noteq> None) lh lm) / 60)) \<and>
         (\<exists>x. row_duration row = Some x \<and> x < 0 \<and>
            x = of_int (worked_minutes h1 m1 h2 m2 (row_lunch_break row \<noteq> None) lh lm) / 60)"
proof -
  have neg: "worked_minutes h1 m1 h2 m2 c lh lm < 0" for c
    using lt b by (simp add: worked_minutes_def)
  have fa: "calculateEntryHours entry =
      Some (spec_round2 (of_int (worked_minutes h1 m1 h2 m2
             (has_lunch_break entry \<and> lunch_break entry \<noteq> None) lh lm) / 60))"
    unfolding calculateEntryHours_minute [OF e(1) e(2) b(1-4) e(3) b(5-8) e(4) b(9-12)]
      Number_toFixed2_minutes by simp
  have fb: "calculateTotalHours row =
      Some (spec_round2 (of_int (worked_minutes h1 m1 h2 m2 (row_lunch_break row \<noteq> None) lh lm) / 60))"
    unfolding calculateTotalHours_minute [OF r(1) r(2) b(1-4) r(3) b(5-8) r(4) b(9-12)]
      Number_toFixed2_minutes by simp
  have fc: "row_duration row =
      Some (of_int (worked_minutes h1 m1 h2 m2 (row_lunch_break row \<noteq> None) lh lm) / 60)"
    unfolding row_duration_def
    by (rule calculateDuration_minute [OF r(2) b(1-4) r(3) b(5-8) r(4) b(9-12)])
  have fd: "(of_int (worked_minutes h1 m1 h2 m2 (row_lunch_break row \<noteq> None) lh lm) / 60 :: rat) < 0"
    using neg [of "row_lunch_break row \<noteq> None"] by simp
  have g: "\<exists>x. Some A = Some x \<and> x < 0 \<and> x = A" if "A < 0" for A :: rat
    using that by blast
  show ?thesis unfolding fa fb fc by (intro conjI g fd spec_round2_negative [OF neg])
qed


text \<open>From 17:00 back to 09:00 with a 30 minute lunch break: minus 8.5 hours.\<close>

theorem C8_end_before_start_negative_witness:
  "\<not> is_full_day backwards_entry \<and>
   start_time backwards_entry \<in> minute_time 17 0 \<and>
   end_time backwards_entry \<in> minute_time 9 0 \<and>
   (9 * 60 + 0 :: int) < 17 * 60 + 0 \<and>
   calculateEntryHours backwards_entry = Some (- 17 / 2) \<and>
   calculateTotalHours (time_entry_row example_session backwards_entry 0) = Some (- 17 / 2) \<and>
   row_duration (time_entry_row example_session backwards_entry 0) = Some (- 17 / 2)"
proof -
  let ?row = "time_entry_row example_session backwards_entry 0"
  have e: "\<not> is_full_day backwards_entry" "start_time backwards_entry \<in> minute_time 17 0"
    "end_time backwards_entry \<in> minute_time 9 0"
    "lunch_break backwards_entry = None \<or> (\<exists>t \<in> minute_time 0 30. lunch_break backwards_entry = Some t)"
    "has_lunch_break backwards_entry" "lunch_break backwards_entry \<noteq> None"
    by (simp_all add: backwards_entry_def full_day_entry_def minute_time_def hhmm_def pad2_def
        digit_char_def)
  have r: "\<not> row_is_full_day ?row" "row_start_time ?row \<in> minute_time 17 0"
    "row_end_time ?row \<in> minute_time 9 0"
    "row_lunch_break ?row = None \<or> (\<exists>t \<in> minute_time 0 30. row_lunch_break ?row = Some t)"
    "row_lunch_break ?row \<noteq> None"
    by (simp_all add: time_entry_row_def backwards_entry_def full_day_entry_def minute_time_def
        hhmm_def pad2_def digit_char_def)
  have lt: "(9 * 60 + 0 :: int) < 17 * 60 + 0" by simp
  have v: "spec_round2 (of_int (worked_minutes 17 0 9 0 True 0 30) / 60) = - 17 / 2"
    "(of_int (worked_minutes 17 0 9 0 True 0 30) / 60 :: rat) = - 17 / 2"
    by (simp_all add: spec_round2_def worked_minutes_def)
  from C8_end_before_start_negative [OF e(1-4) r(1-4) _ _ _ _ _ _ _ _ _ _ _ _ lt]
  have "calculateEntryHours backwards_entry = Some (- 17 / 2) \<and>
        calculateTotalHours ?row = Some (- 17 / 2) \<and> row_duration ?row = Some (- 17 / 2)"
    using e(5,6) r(5) v by simp
  then show ?thesis using e lt by simp
qed



section \<open>Claims about the submission\<close>



lemma prompt_submit_all: "prompt (submit_all env ss dflt shown entries b) = shown"
  by (simp add: submit_all_def split: prod.splits bool.splits)




lemma no_rows_lost_refl [simp]: "no_rows_lost b b"
  by (simp add: no_rows_lost_def)

lemma no_rows_lost_trans: "no_rows_lost a b \<Longrightarrow> no_rows_lost b c \<Longrightarrow> no_rows_lost a c"
  by (auto simp: no_rows_lost_def intro: prefix_order.trans)

lemma no_rows_lost_tick [simp]: "no_rows_lost b (tick b)"
  by (simp add: no_rows_lost_def tick_def)

lemma insert_time_entry_grows:
  "insert_time_entry env ss entry b = (r, b') \<Longrightarrow> no_rows_lost b b'"
  by (auto simp: insert_time_entry_def no_rows_lost_def tick_def split: if_splits)

lemma upload_receipt_grows: "upload_receipt env expense b = (x, b') \<Longrightarrow> no_rows_lost b b'"
  by (auto simp: upload_receipt_def no_rows_lost_def tick_def split: if_splits option.splits)

lemma resolve_retailer_grows: "resolve_retailer env expense b = (x, b') \<Longrightarrow> no_rows_lost b b'"
  by (auto simp: resolve_retailer_def no_rows_lost_def tick_def Let_def split: if_splits option.splits)

lemma insert_expense_grows:
  "insert_expense env ss entry k expense rid b = (ok, b') \<Longrightarrow> no_rows_lost b b'"
  by (auto simp: insert_expense_def no_rows_lost_def tick_def split: if_splits)

lemma submit_expense_grows:
  assumes "submit_expense env ss entry k expense b = (ok, b')"
  shows "no_rows_lost b b'"
proof -
  obtain x b1 where u: "upload_receipt env expense b = (x, b1)" by (cases "upload_receipt env expense b")
  obtain r b2 where rr: "resolve_retailer env x b1 = (r, b2)" by (cases "resolve_retailer env x b1")
  have g: "no_rows_lost b b2"
    using upload_receipt_grows [OF u] resolve_retailer_grows [OF rr] by (rule no_rows_lost_trans)
  show ?thesis
  proof (cases r)
    case (Inl a)
    then show ?thesis using assms u rr g by (simp add: submit_expense_def)
  next
    case (Inr rid)
    then have "insert_expense env ss entry k x rid b2 = (ok, b')"
      using assms u rr by (simp add: submit_expense_def)
    from g insert_expense_grows [OF this] show ?thesis by (rule no_rows_lost_trans)
  qed
qed

lemma submit_expenses_grows:
  "submit_expenses env ss entry k es b = (ok, b') \<Longrightarrow> no_rows_lost b b'"
proof (induction es arbitrary: b)
  case Nil
  then show ?case by simp
next
  case (Cons e es)
  obtain ok1 b1 where s: "submit_expense env ss entry k e b = (ok1, b1)"
    by (cases "submit_expense env ss entry k e b")
  show ?case
  proof (cases ok1)
    case True
    then have "submit_expenses env ss entry k es b1 = (ok, b')" using Cons.prems s by simp
    from submit_expense_grows [OF s] Cons.IH [OF this] show ?thesis by (rule no_rows_lost_trans)
  next
    case False
    then show ?thesis using Cons.prems s submit_expense_grows [OF s] by simp
  qed
qed

lemma submit_entry_grows:
  assumes "submit_entry env ss entry b = (ok, b')"
  shows "no_rows_lost b b'"
proof -
  obtain r b1 where i: "insert_time_entry env ss entry b = (r, b1)"
    by (cases "insert_time_entry env ss entry b")
  show ?thesis
  proof (cases r)
    case None
    then show ?thesis using assms i insert_time_entry_grows [OF i] by (simp add: submit_entry_def)
  next
    case (Some k)
    then have "submit_expenses env ss entry k (expenses entry) b1 = (ok, b')"
      using assms i by (simp add: submit_entry_def)
    from insert_time_entry_grows [OF i] submit_expenses_grows [OF this]
    show ?thesis by (rule no_rows_lost_trans)
  qed
qed

lemma submit_entries_grows:
  "submit_entries env ss es b = (ok, b') \<Longrightarrow> no_rows_lost b b'"
proof (induction es arbitrary: b)
  case Nil
  then show ?case by simp
next
  case (Cons e es)
  obtain ok1 b1 where s: "submit_entry env ss e b = (ok1, b1)"
    by (cases "submit_entry env ss e b")
  show ?case
  proof (cases ok1)
    case True
    then have "submit_entries env ss es b1 = (ok, b')" using Cons.prems s by simp
    from submit_entry_grows [OF s] Cons.IH [OF this] show ?thesis by (rule no_rows_lost_trans)
  next
    case False
    then show ?thesis using Cons.prems s submit_entry_grows [OF s] by simp
  qed
qed

lemma submit_entries_append:
  "submit_entries env ss (xs @ ys) b =
     (case submit_entries env ss xs b of
        (False, b') \<Rightarrow> (False, b')
      | (True, b') \<Rightarrow> submit_entries env ss ys b')"
  by (induction xs arbitrary: b) (auto split: prod.splits bool.splits)

text \<open>A thrown error comes from the request made last.\<close>

lemma submit_expense_failed:
  assumes "submit_expense env ss entry k expense b = (False, b')"
  shows "0 < requests b' \<and> fails env (requests b' - 1)"
  using assms
  by (auto simp: submit_expense_def resolve_retailer_def insert_expense_def tick_def Let_def
      split: prod.splits sum.splits if_splits option.splits)

lemma submit_expenses_failed:
  "submit_expenses env ss entry k es b = (False, b') \<Longrightarrow> 0 < requests b' \<and> fails env (requests b' - 1)"
proof (induction es arbitrary: b)
  case Nil
  then show ?case by simp
next
  case (Cons e es)
  then show ?case
    by (auto split: prod.splits bool.splits dest: submit_expense_failed)
qed

lemma submit_entry_failed:
  assumes "submit_entry env ss entry b = (False, b')"
  shows "0 < requests b' \<and> fails env (requests b' - 1)"
  using assms submit_expenses_failed
  by (auto simp: submit_entry_def insert_time_entry_def tick_def split: prod.splits option.splits if_splits)


lemma submit_expense_time_entries:
  "submit_expense env ss entry k expense b = (ok, b') \<Longrightarrow> time_entries b' = time_entries b"
  by (auto simp: submit_expense_def upload_receipt_def resolve_retailer_def insert_expense_def
      tick_def Let_def split: prod.splits sum.splits if_splits option.splits)

lemma submit_expenses_time_entries:
  "submit_expenses env ss entry k es b = (ok, b') \<Longrightarrow> time_entries b' = time_entries b"
proof (induction es arbitrary: b)
  case Nil
  then show ?case by simp
next
  case (Cons e es)
  then show ?case
    by (auto split: prod.splits bool.splits dest: submit_expense_time_entries)
qed

lemma submit_expense_count:
  "submit_expense env ss entry k expense b = (True, b') \<Longrightarrow>
     length (expenses_table b') = Suc (length (expenses_table b))"
  by (auto simp: submit_expense_def upload_receipt_def resolve_retailer_def insert_expense_def
      tick_def Let_def split: prod.splits sum.splits if_splits option.splits)

lemma submit_expenses_count:
  "submit_expenses env ss entry k es b = (True, b') \<Longrightarrow>
     length (expenses_table b') = length (expenses_table b) + length es"
proof (induction es arbitrary: b)
  case Nil
  then show ?case by simp
next
  case (Cons e es)
  obtain ok1 b1 where s: "submit_expense env ss entry k e b = (ok1, b1)"
    by (cases "submit_expense env ss entry k e b")
  then have ok1: "ok1" using Cons.prems by (auto split: bool.splits)
  then have r: "submit_expenses env ss entry k es b1 = (True, b')" using Cons.prems s by simp
  show ?case using Cons.IH [OF r] submit_expense_count [of env ss entry k e b b1] s ok1 by simp
qed

lemma submit_entry_written:
  assumes "submit_entry env ss entry b = (True, b')"
  shows "time_entries b' = time_entries b @ [time_entry_row ss entry (length (time_entries b))] \<and>
         length (expenses_table b') = length (expenses_table b) + length (expenses entry)"
proof -
  obtain r b1 where i: "insert_time_entry env ss entry b = (r, b1)"
    by (cases "insert_time_entry env ss entry b")
  then obtain k where k: "r = Some k" using assms by (cases r) (auto simp: submit_entry_def)
  have s: "submit_expenses env ss entry k (expenses entry) b1 = (True, b')"
    using assms i k by (simp add: submit_entry_def)
  have b1: "time_entries b1 = time_entries b @ [time_entry_row ss entry (length (time_entries b))]"
    "expenses_table b1 = expenses_table b"
    using i k by (auto simp: insert_time_entry_def tick_def split: if_splits)
  show ?thesis using submit_expenses_time_entries [OF s] submit_expenses_count [OF s] b1 by simp
qed

lemma submit_entries_written:
  "submit_entries env ss es b = (True, b') \<Longrightarrow>
     time_entries b' = time_entries b @ written_rows ss es (length (time_entries b)) \<and>
     length (expenses_table b') = length (expenses_table b) + length (concat (map expenses es))"
proof (induction es arbitrary: b)
  case Nil
  then show ?case by simp
next
  case (Cons e es)
  obtain ok1 b1 where s: "submit_entry env ss e b = (ok1, b1)"
    by (cases "submit_entry env ss e b")
  then have ok1: "ok1" using Cons.prems by (auto split: bool.splits)
  then have r: "submit_entries env ss es b1 = (True, b')" using Cons.prems s by simp
  have w: "time_entries b1 = time_entries b @ [time_entry_row ss e (length (time_entries b))]"
    "length (expenses_table b1) = length (expenses_table b) + length (expenses e)"
    using submit_entry_written [of env ss e b b1] s ok1 by simp_all
  show ?case using Cons.IH [OF r] w by simp
qed

lemma handleSubmit_proceeds:
  assumes "result (handleSubmit env ss answer dflt entries b) \<noteq> Uncaught"
    "result (handleSubmit env ss answer dflt entries b) \<noteq> Declined"
  shows "handleSubmit env ss answer dflt entries b =
           submit_all env ss dflt (prompt (handleSubmit env ss answer dflt entries b)) entries b"
  using assms by (auto simp: handleSubmit_def Let_def prompt_submit_all split: option.splits if_splits)












lemma submit_expenses_failed_split:
  "submit_expenses env ss entry k es b = (False, b') \<Longrightarrow>
     \<exists>xs x ys bm. es = xs @ x # ys \<and> submit_expenses env ss entry k xs b = (True, bm) \<and>
       submit_expense env ss entry k x bm = (False, b')"
proof (induction es arbitrary: b)
  case Nil
  then show ?case by simp
next
  case (Cons e es)
  obtain ok1 b1 where s: "submit_expense env ss entry k e b = (ok1, b1)"
    by (cases "submit_expense env ss entry k e b")
  show ?case
  proof (cases ok1)
    case True
    then have "submit_expenses env ss entry k es b1 = (False, b')" using Cons.prems s by simp
    from Cons.IH [OF this] obtain xs x ys bm where
      r: "es = xs @ x # ys" "submit_expenses env ss entry k xs b1 = (True, bm)"
        "submit_expense env ss entry k x bm = (False, b')"
      by blast
    have "e # es = (e # xs) @ x # ys" using r(1) by simp
    moreover have "submit_expenses env ss entry k (e # xs) b = (True, bm)"
      using s True r(2) by simp
    ultimately show ?thesis using r(3) by blast
  next
    case False
    then have "b1 = b'" using Cons.prems s by simp
    then have "e # es = [] @ e # es \<and> submit_expenses env ss entry k [] b = (True, b) \<and>
        submit_expense env ss entry k e b = (False, b')"
      using s False by simp
    then show ?thesis by blast
  qed
qed

lemma submit_expense_row:
  "submit_expense env ss entry k x b = (True, b') \<Longrightarrow>
     \<exists>row. expenses_table b' = expenses_table b @ [row] \<and> se_amount row = amount x \<and>
       se_description row = description x \<and> se_time_entry_id row = k"
  by (auto simp: submit_expense_def upload_receipt_def resolve_retailer_def insert_expense_def
      tick_def Let_def split: prod.splits sum.splits if_splits option.splits)

lemma submit_expenses_rows:
  "submit_expenses env ss entry k xs b = (True, b') \<Longrightarrow>
     \<exists>rows. expenses_table b' = expenses_table b @ rows \<and> map se_amount rows = map amount xs \<and>
       map se_description rows = map description xs \<and> (\<forall>r \<in> set rows. se_time_entry_id r = k)"
proof (induction xs arbitrary: b)
  case Nil
  then show ?case by simp
next
  case (Cons x xs)
  obtain ok1 b1 where s: "submit_expense env ss entry k x b = (ok1, b1)"
    by (cases "submit_expense env ss entry k x b")
  then have ok1: "ok1" using Cons.prems by (auto split: bool.splits)
  then have r: "submit_expenses env ss entry k xs b1 = (True, b')" using Cons.prems s by simp
  have s': "submit_expense env ss entry k x b = (True, b1)" using s ok1 by simp
  from submit_expense_row [OF s'] obtain row where
    row: "expenses_table b1 = expenses_table b @ [row]" "se_amount row = amount x"
      "se_description row = description x" "se_time_entry_id row = k"
    by blast
  from Cons.IH [OF r] obtain rows where
    rows: "expenses_table b' = expenses_table b1 @ rows" "map se_amount rows = map amount xs"
      "map se_description rows = map description xs" "\<forall>r \<in> set rows. se_time_entry_id r = k"
    by blast
  have "expenses_table b' = expenses_table b @ (row # rows) \<and>
      map se_amount (row # rows) = map amount (x # xs) \<and>
      map se_description (row # rows) = map description (x # xs) \<and>
      (\<forall>r \<in> set (row # rows). se_time_entry_id r = k)"
    using row rows by simp
  then show ?case by blast
qed

lemma submit_expense_failed_tables:
  "submit_expense env ss entry k x b = (False, b') \<Longrightarrow>
     expenses_table b' = expenses_table b \<and> time_entries b' = time_entries b"
  by (auto simp: submit_expense_def upload_receipt_def resolve_retailer_def insert_expense_def
      tick_def Let_def split: prod.splits sum.splits if_splits option.splits)

lemma upload_receipt_requests:
  assumes "upload_receipt env x b = (x', b1)"
  shows "requests b1 = requests b + (if upload_requested x then 1 else 0) \<and>
         expenses_table b1 = expenses_table b \<and> amount x' = amount x \<and>
         lookup_requested x' = lookup_requested x"
  using assms
  by (auto simp: upload_receipt_def upload_requested_def lookup_requested_def tick_def
      split: option.splits if_splits)

lemma resolve_retailer_requests:
  assumes "resolve_retailer env x b = (r, b')"
    "\<not> fails env (requests b + (if lookup_requested x then 1 else 0))"
  shows "r \<noteq> Inl () \<and> expenses_table b' = expenses_table b \<and>
         (requests b' = requests b + (if lookup_requested x then 1 else 0) \<or>
          requests b' = Suc (requests b + (if lookup_requested x then 1 else 0)))"
  using assms
  by (auto simp: resolve_retailer_def lookup_requested_def tick_def Let_def
      split: option.splits if_splits)

lemma insert_expense_succeeds:
  assumes "\<not> fails env (requests b)"
  shows "fst (insert_expense env ss entry k x rid b) \<and>
         map se_amount (expenses_table (snd (insert_expense env ss entry k x rid b))) =
           map se_amount (expenses_table b) @ [amount x]"
  using assms by (simp add: insert_expense_def tick_def)

lemma submit_expense_tolerant:
  assumes "\<not> fails env (first_insert x b)" "\<not> fails env (Suc (first_insert x b))"
  shows "fst (submit_expense env ss entry k x b) \<and>
         map se_amount (expenses_table (snd (submit_expense env ss entry k x b))) =
           map se_amount (expenses_table b) @ [amount x]"
proof -
  obtain x' b1 where u: "upload_receipt env x b = (x', b1)" by (cases "upload_receipt env x b")
  obtain r b2 where rr: "resolve_retailer env x' b1 = (r, b2)" by (cases "resolve_retailer env x' b1")
  note uf = upload_receipt_requests [OF u]
  have n: "requests b1 + (if lookup_requested x' then 1 else 0) = first_insert x b"
    using uf by (simp add: first_insert_def)
  have nf: "\<not> fails env (requests b1 + (if lookup_requested x' then 1 else 0))"
    unfolding n by (rule assms(1))
  note rf = resolve_retailer_requests [OF rr nf]
  then obtain rid where rid: "r = Inr rid" by (cases r) auto
  have "requests b2 = first_insert x b \<or> requests b2 = Suc (first_insert x b)"
    using rf unfolding n by blast
  then have ok: "\<not> fails env (requests b2)" using assms by auto
  have s: "submit_expense env ss entry k x b = insert_expense env ss entry k x' rid b2"
    by (simp add: submit_expense_def u rr rid)
  show ?thesis using insert_expense_succeeds [OF ok, of ss entry k x' rid] uf rf
    by (simp add: s)
qed

lemma submit_entry_failed_rows:
  assumes "submit_entry env ss entry b1 = (False, b2)"
  shows "(fails env (requests b1) \<longrightarrow> b2 = tick b1) \<and>
         (\<not> fails env (requests b1) \<longrightarrow>
            time_entries b2 = time_entries b1 @ [time_entry_row ss entry (length (time_entries b1))] \<and>
            (\<exists>xs x ys rows. expenses entry = xs @ x # ys \<and>
               expenses_table b2 = expenses_table b1 @ rows \<and>
               map se_amount rows = map amount xs \<and>
               map se_description rows = map description xs \<and>
               (\<forall>r \<in> set rows. se_time_entry_id r = length (time_entries b1))))"
proof (cases "fails env (requests b1)")
  case True
  then show ?thesis using assms by (simp add: submit_entry_def insert_time_entry_def)
next
  case False
  let ?k = "length (time_entries b1)"
  let ?bi = "tick (b1\<lparr>time_entries := time_entries b1 @ [time_entry_row ss entry ?k]\<rparr>)"
  have s: "submit_expenses env ss entry ?k (expenses entry) ?bi = (False, b2)"
    using assms False by (simp add: submit_entry_def insert_time_entry_def)
  have t: "time_entries b2 = time_entries b1 @ [time_entry_row ss entry ?k]"
    using submit_expenses_time_entries [OF s] by (simp add: tick_def)
  from submit_expenses_failed_split [OF s] obtain xs x ys bm where
    r: "expenses entry = xs @ x # ys" "submit_expenses env ss entry ?k xs ?bi = (True, bm)"
      "submit_expense env ss entry ?k x bm = (False, b2)"
    by blast
  from submit_expenses_rows [OF r(2)] obtain rows where
    rows: "expenses_table bm = expenses_table ?bi @ rows" "map se_amount rows = map amount xs"
      "map se_description rows = map description xs" "\<forall>r \<in> set rows. se_time_entry_id r = ?k"
    by blast
  have "expenses_table b2 = expenses_table b1 @ rows"
    using submit_expense_failed_tables [OF r(3)] rows(1) by (simp add: tick_def)
  then have "expenses entry = xs @ x # ys \<and>
               expenses_table b2 = expenses_table b1 @ rows \<and>
               map se_amount rows = map amount xs \<and>
               map se_description rows = map description xs \<and>
               (\<forall>r \<in> set rows. se_time_entry_id r = ?k)"
    using r(1) rows by simp
  then show ?thesis using False t by blast
qed

text \<open>
  C9 (as amended). When a submission reaches an entry whose processing throws after the
  entries before it were written (only a failed insert of a time entry, a retailer or
  an expense throws), the handler stops there: the backend is left as it was at the
  failing request (the last one made), the rows of the entries written before are all
  still there, nothing is deleted, and the one generic failure message is shown. Of the
  failing entry itself, nothing is stored when its own insert failed; otherwise its row
  is stored, together with one expense row for each of its expenses that came before
  the one whose processing threw. No entry after it is written. A failed receipt upload
  is caught and logged and a failed retailer lookup counts as finding no retailer;
  neither stops the submission: the processing of an expense succeeds and stores the
  expense whenever the two requests that follow its upload and lookup requests (the
  retailer insert and the expense insert) do not fail.
\<close>

theorem C9_partial_failure_not_rolled_back:
  assumes split: "entries = done @ entry # rest"
    and ok: "submit_entries env ss done b = (True, b1)"
    and failed: "submit_entry env ss entry b1 = (False, b2)"
    and proceeds: "result (handleSubmit env ss answer dflt entries b) \<noteq> Uncaught"
      "result (handleSubmit env ss answer dflt entries b) \<noteq> Declined"
  shows "result (handleSubmit env ss answer dflt entries b) = Failed \<and>
         alerts (handleSubmit env ss answer dflt entries b) =
           [''Failed to submit entries. Please try again.''] \<and>
         backend (handleSubmit env ss answer dflt entries b) = b2 \<and>
         time_entries b1 = time_entries b @ written_rows ss done (length (time_entries b)) \<and>
         length (expenses_table b1) = length (expenses_table b) + length (concat (map expenses done)) \<and>
         no_rows_lost b b1 \<and> no_rows_lost b1 b2 \<and>
         0 < requests b2 \<and> fails env (requests b2 - 1) \<and>
         (fails env (requests b1) \<longrightarrow> b2 = tick b1) \<and>
         (\<not> fails env (requests b1) \<longrightarrow>
            time_entries b2 = time_entries b1 @ [time_entry_row ss entry (length (time_entries b1))] \<and>
            (\<exists>xs x ys rows. expenses entry = xs @ x # ys \<and>
               expenses_table b2 = expenses_table b1 @ rows \<and>
               map se_amount rows = map amount xs \<and>
               map se_description rows = map description xs \<and>
               (\<forall>r \<in> set rows. se_time_entry_id r = length (time_entries b1)))) \<and>
         (\<forall>e k x bx. \<not> fails env (first_insert x bx) \<and> \<not> fails env (Suc (first_insert x bx)) \<longrightarrow>
            fst (submit_expense env ss e k x bx) \<and>
            map se_amount (expenses_table (snd (submit_expense env ss e k x bx))) =
              map se_amount (expenses_table bx) @ [amount x])"
proof -
  have run: "submit_entries env ss entries b = (False, b2)"
    using ok failed by (simp add: split submit_entries_append)
  have h: "handleSubmit env ss answer dflt entries b =
      submit_all env ss dflt (prompt (handleSubmit env ss answer dflt entries b)) entries b"
    using proceeds by (rule handleSubmit_proceeds)
  have r: "result (handleSubmit env ss answer dflt entries b) = Failed"
    "alerts (handleSubmit env ss answer dflt entries b) = [''Failed to submit entries. Please try again.'']"
    "backend (handleSubmit env ss answer dflt entries b) = b2"
    by (subst h, simp add: submit_all_def run)+
  have w: "time_entries b1 = time_entries b @ written_rows ss done (length (time_entries b))"
    "length (expenses_table b1) = length (expenses_table b) + length (concat (map expenses done))"
    using submit_entries_written [OF ok] by simp_all
  have g: "no_rows_lost b b1" "no_rows_lost b1 b2"
    using submit_entries_grows [OF ok] submit_entry_grows [OF failed] by simp_all
  have f: "0 < requests b2" "fails env (requests b2 - 1)"
    using submit_entry_failed [OF failed] by simp_all
  note fr = submit_entry_failed_rows [OF failed]
  have t: "\<forall>e k x bx. \<not> fails env (first_insert x bx) \<and> \<not> fails env (Suc (first_insert x bx)) \<longrightarrow>
            fst (submit_expense env ss e k x bx) \<and>
            map se_amount (expenses_table (snd (submit_expense env ss e k x bx))) =
              map se_amount (expenses_table bx) @ [amount x]"
    using submit_expense_tolerant by blast
  show ?thesis
    using r w g f fr t by (intro conjI) blast+
qed

text \<open>Three entries. For the first, the receipt upload (request 1) and the retailer lookup
  (request 2) fail, and the entry, its retailer and its expense are stored all the same.
  For the second, the insert of its second expense (request 7) fails: its row and its
  first expense stay stored, and the third entry is not written.\<close>

theorem C9_partial_failure_not_rolled_back_witness:
  "fst (submit_entries example_failures example_session [entry_with_receipt] empty_backend) \<and>
   \<not> fst (submit_entry example_failures example_session entry_two_expenses
           (snd (submit_entries example_failures example_session [entry_with_receipt] empty_backend))) \<and>
   fails example_failures 1 \<and> fails example_failures 2 \<and> fails example_failures 7 \<and>
   result (handleSubmit example_failures example_session True full_day_entry
             [entry_with_receipt, entry_two_expenses, full_day_entry] empty_backend) = Failed \<and>
   alerts (handleSubmit example_failures example_session True full_day_entry
             [entry_with_receipt, entry_two_expenses, full_day_entry] empty_backend) =
     [''Failed to submit entries. Please try again.''] \<and>
   time_entries (backend (handleSubmit example_failures example_session True full_day_entry
             [entry_with_receipt, entry_two_expenses, full_day_entry] empty_backend)) =
     [time_entry_row example_session entry_with_receipt 0,
      time_entry_row example_session entry_two_expenses 1] \<and>
   map (\<lambda>r. (se_time_entry_id r, se_description r))
     (expenses_table (backend (handleSubmit example_failures example_session True full_day_entry
             [entry_with_receipt, entry_two_expenses, full_day_entry] empty_backend))) =
     [(0, ''Paint''), (1, ''Brushes'')] \<and>
   map retailer_row_name
     (retailers (backend (handleSubmit example_failures example_session True full_day_entry
             [entry_with_receipt, entry_two_expenses, full_day_entry] empty_backend))) = [''Depot''] \<and>
   requests (backend (handleSubmit example_failures example_session True full_day_entry
             [entry_with_receipt, entry_two_expenses, full_day_entry] empty_backend)) = 8 \<and>
   fst (submit_expense example_failures example_session entry_with_receipt 0
          (hd (expenses entry_with_receipt)) (tick empty_backend))"
proof -
  let ?E = example_failures and ?S = example_session
  let ?b1 = "snd (submit_entries ?E ?S [entry_with_receipt] empty_backend)"
  let ?b2 = "snd (submit_entry ?E ?S entry_two_expenses ?b1)"
  let ?R = "handleSubmit ?E ?S True full_day_entry
              [entry_with_receipt, entry_two_expenses, full_day_entry] empty_backend"
  have f1: "fst (submit_entries ?E ?S [entry_with_receipt] empty_backend)" by code_simp
  have f2: "\<not> fst (submit_entry ?E ?S entry_two_expenses ?b1)" by code_simp
  have ok: "submit_entries ?E ?S [entry_with_receipt] empty_backend = (True, ?b1)"
    using f1 by (simp add: prod_eq_iff)
  have failed: "submit_entry ?E ?S entry_two_expenses ?b1 = (False, ?b2)"
    using f2 by (simp add: prod_eq_iff)
  have split: "[entry_with_receipt, entry_two_expenses, full_day_entry] =
      [entry_with_receipt] @ entry_two_expenses # [full_day_entry]"
    by simp
  have p: "result ?R \<noteq> Uncaught" "result ?R \<noteq> Declined" by code_simp+
  have e: "fails ?E 1" "fails ?E 2" "fails ?E 7" by (simp_all add: example_failures_def)
  have t: "time_entries ?b2 = [time_entry_row ?S entry_with_receipt 0, time_entry_row ?S entry_two_expenses 1]"
    "map (\<lambda>r. (se_time_entry_id r, se_description r)) (expenses_table ?b2) = [(0, ''Paint''), (1, ''Brushes'')]"
    "map retailer_row_name (retailers ?b2) = [''Depot'']"
    "requests ?b2 = 8"
    by code_simp+
  have n: "\<not> fails ?E (first_insert (hd (expenses entry_with_receipt)) (tick empty_backend)) \<and>
      \<not> fails ?E (Suc (first_insert (hd (expenses entry_with_receipt)) (tick empty_backend)))"
    by code_simp
  note c9 = C9_partial_failure_not_rolled_back [OF split ok failed p]
  from c9 have "result ?R = Failed" "alerts ?R = [''Failed to submit entries. Please try again.'']"
    "backend ?R = ?b2"
    by simp_all
  moreover from c9 n have "fst (submit_expense ?E ?S entry_with_receipt 0
          (hd (expenses entry_with_receipt)) (tick empty_backend))"
    by blast
  ultimately show ?thesis using f1 f2 e t by simp
qed

text \<open>
  The claim as stated (the submission stops at the first persistence call that fails)
  does not hold for the retailer lookup: here the second request, the lookup, fails,
  and the submission goes on through the retailer insert, the expense insert and the
  second entry, and reports success.
\<close>

theorem C9_failed_lookup_counterexample:
  "fails (fails_at 1) 1 \<and>
   result (handleSubmit (fails_at 1) example_session True full_day_entry
             [entry_with_retailer, full_day_entry] empty_backend) = Submitted \<and>
   alerts (handleSubmit (fails_at 1) example_session True full_day_entry
             [entry_with_retailer, full_day_entry] empty_backend) =
     [''Time entries and expenses submitted successfully!''] \<and>
   requests (backend (handleSubmit (fails_at 1) example_session True full_day_entry
             [entry_with_retailer, full_day_entry] empty_backend)) = 5 \<and>
   length (time_entries (backend (handleSubmit (fails_at 1) example_session True full_day_entry
             [entry_with_retailer, full_day_entry] empty_backend))) = 2"
  by code_simp



section \<open>Claims about the CSV cells\<close>

lemma csv_cell_escape: "csv_cell cell = dquote # escape_quotes cell @ [dquote]"
  by (simp add: csv_cell_def escape_quotes_def)

lemma read_fields_escape:
  "read_fields (Inside acc) (escape_quotes cell @ dquote # rest) =
     read_fields (AfterQuote (acc @ cell)) rest"
  by (induction cell arbitrary: acc) (simp_all add: escape_quotes_def)

lemma read_fields_cell:
  "read_fields Start (csv_cell x @ rest) = read_fields (AfterQuote x) rest"
  using read_fields_escape [of "[]" x rest] by (simp add: csv_cell_escape)

lemma csv_read_line_cells:
  "row \<noteq> [] \<Longrightarrow> csv_read_line (join '','' (map csv_cell row)) = Some row"
proof (induction row rule: induct_list012)
  case 1
  then show ?case by simp
next
  case (2 x)
  show ?case using read_fields_cell [of x "[]"] by (simp add: csv_read_line_def)
next
  case (3 x y zs)
  have "read_fields Start (join '','' (map csv_cell (y # zs))) = Some (y # zs)"
    using 3 by (simp add: csv_read_line_def)
  then show ?case
    using read_fields_cell [of x "CHR '','' # join '','' (map csv_cell (y # zs))"]
    by (simp add: csv_read_line_def dquote_def)
qed

text \<open>
  C7 (as amended). Every cell of a row that goes through the row serializer of the
  export routines (all rows of the invoice export, headers included; the data rows of
  the activity export) is wrapped in double quotes with every embedded quote doubled,
  and a standard CSV reader gets the cells of the row back, commas and quotes
  included. The activity export writes its header line with a plain \<open>join\<close>, without
  quotes.
\<close>

theorem C7_row_cells_quoted:
  assumes "row \<noteq> []"
  shows "(\<forall>cell \<in> set row. csv_cell cell = dquote # escape_quotes cell @ [dquote]) \<and>
         csv_read_line (join '','' (map csv_cell row)) = Some row \<and>
         exportToCSV toString entries =
           join [newline] (join '','' export_headers #
             map (\<lambda>row. join '','' (map csv_cell row)) (concat (map (export_rows toString) entries))) \<and>
         generateExcel selectedLocation startDate endDate summary =
           map_option (\<lambda>rows. join [newline] (map (\<lambda>row. join '','' (map csv_cell row)) rows))
             (invoice_rows selectedLocation startDate endDate summary)"
  using assms by (simp add: csv_cell_escape csv_read_line_cells exportToCSV_def generateExcel_def)

text \<open>The description of the specification's example, and a row holding it.\<close>

theorem C7_row_cells_quoted_witness:
  \<open>[quoted_example, ''x''] \<noteq> [] \<and>
   csv_cell quoted_example = ''"Paint, 2"" brush ""deluxe"""'' \<and>
   join '','' (map csv_cell [quoted_example, ''x'']) = ''"Paint, 2"" brush ""deluxe""","x"'' \<and>
   csv_read_line ''"Paint, 2"" brush ""deluxe""","x"'' = Some [quoted_example, ''x'']\<close>
proof -
  have n: "[quoted_example, ''x''] \<noteq> []" by simp
  have c: \<open>csv_cell quoted_example = ''"Paint, 2"" brush ""deluxe"""''\<close>
    \<open>join '','' (map csv_cell [quoted_example, ''x'']) = ''"Paint, 2"" brush ""deluxe""","x"''\<close>
    by code_simp+
  have r: "csv_read_line (join '','' (map csv_cell [quoted_example, ''x''])) =
      Some [quoted_example, ''x'']"
    by (rule conjunct1 [OF conjunct2
          [OF C7_row_cells_quoted [OF n, of no_digits "[]" "[]" "[]" "[]" "locationSummary [] []"]]])
  show ?thesis using n c r [unfolded c(2)] by (intro conjI)
qed

text \<open>The claim as stated (every string cell written by the export routines is wrapped
  in quotes) fails on the header cells of the activity export.\<close>

theorem C7_header_line_counterexample:
  "exportToCSV no_digits [] =
     ''Date,Employee,Location,Start Time,End Time,Lunch Break,Hours,Full Day,Notes,Expense Amount,Expense Description,Receipt URL'' \<and>
   hd (exportToCSV no_digits []) \<noteq> dquote"
  by code_simp


section \<open>Claims about the estimate worksheet\<close>

subsection \<open>Properties of binary64 rounding\<close>

lemma int_power_power: "int_power b e = b ^ nat e"
proof (induction b e rule: int_power.induct)
  case (1 b e)
  show ?case
  proof (cases "e \<le> 0")
    case True
    then show ?thesis by (simp add: int_power.simps [of b e])
  next
    case False
    then have h: "int_power b (e div 2) = b ^ nat (e div 2)" by (rule 1)
    have d: "0 \<le> e div 2" using False by simp
    have n: "nat e = nat (e div 2) + nat (e div 2) + (if even e then 0 else 1)"
    proof (cases "even e")
      case True
      then have "e = 2 * (e div 2)" by simp
      then have "nat e = nat (2 * (e div 2))" by simp
      also have "\<dots> = 2 * nat (e div 2)" by (simp add: nat_mult_distrib)
      finally show ?thesis using True by simp
    next
      case odd: False
      then have "e = 2 * (e div 2) + 1" by simp
      then have "nat e = nat (2 * (e div 2) + 1)" by simp
      also have "\<dots> = 2 * nat (e div 2) + 1" using d by (simp add: nat_add_distrib nat_mult_distrib)
      finally show ?thesis using odd by simp
    qed
    show ?thesis
      using False
      by (subst int_power.simps, subst n) (simp add: h Let_def power_add)
  qed
qed

lemma pow2_powi: "pow2 e = 2 powi e"
  by (simp add: pow2_def int_power_power power_int_def inverse_eq_divide power_one_over)

lemma pow2_pos: "0 < pow2 e"
  by (simp add: pow2_powi)

lemma ilog2_bounds:
  "1 \<le> n \<Longrightarrow> 0 \<le> ilog2 n \<and> 2 ^ nat (ilog2 n) \<le> n \<and> n < 2 * 2 ^ nat (ilog2 n)"
proof (induction n rule: ilog2.induct)
  case (1 n)
  show ?case
  proof (cases "n < 2")
    case True
    then show ?thesis using 1(2) by (simp add: ilog2.simps [of n])
  next
    case False
    then have "1 \<le> n div 2" by simp
    with 1(1) [OF False] have
      IH: "0 \<le> ilog2 (n div 2)" "2 ^ nat (ilog2 (n div 2)) \<le> n div 2"
        "n div 2 < 2 * 2 ^ nat (ilog2 (n div 2))"
      by simp_all
    have e: "ilog2 n = 1 + ilog2 (n div 2)" using False by (simp add: ilog2.simps [of n])
    have p: "(2::int) ^ nat (ilog2 n) = 2 * 2 ^ nat (ilog2 (n div 2))"
      using IH(1) by (simp add: e nat_add_distrib)
    show ?thesis unfolding p using IH e by simp presburger
  qed
qed

lemma round_half_even_near: "\<bar>of_int (round_half_even y) - y\<bar> \<le> 1 / 2"
proof -
  have "of_int \<lfloor>y\<rfloor> \<le> y" "y < of_int \<lfloor>y\<rfloor> + 1" by linarith+
  then show ?thesis by (auto simp: round_half_even_def Let_def)
qed

lemma exponent2_bounds:
  assumes "0 < a"
  shows "pow2 (exponent2 a) \<le> a \<and> a < 2 * pow2 (exponent2 a)"
proof -
  obtain p q where pq: "quotient_of a = (p, q)" by (cases "quotient_of a")
  have q: "0 < q" using pq by (rule quotient_of_denom_pos)
  have a: "a = of_int p / of_int q" using pq by (rule quotient_of_div)
  have p: "0 < p" using assms q unfolding a by (simp add: zero_less_divide_iff)
  define i where "i = ilog2 p"
  define j where "j = ilog2 q"
  define P :: rat where "P = 2 ^ nat i"
  define Q :: rat where "Q = 2 ^ nat j"
  have bi: "0 \<le> i" "2 ^ nat i \<le> p" "p < 2 * 2 ^ nat i"
    using ilog2_bounds [of p] p by (simp_all add: i_def)
  have bj: "0 \<le> j" "2 ^ nat j \<le> q" "q < 2 * 2 ^ nat j"
    using ilog2_bounds [of q] q by (simp_all add: j_def)
  have Pp: "P \<le> of_int p" "of_int p < 2 * P"
  proof -
    have "(of_int (2 ^ nat i) :: rat) \<le> of_int p" using bi(2) by (simp only: of_int_le_iff)
    then show "P \<le> of_int p" by (simp add: P_def)
    have "(of_int p :: rat) < of_int (2 * 2 ^ nat i)" using bi(3) by (simp only: of_int_less_iff)
    then show "of_int p < 2 * P" by (simp add: P_def)
  qed
  have Qq: "Q \<le> of_int q" "of_int q < 2 * Q"
  proof -
    have "(of_int (2 ^ nat j) :: rat) \<le> of_int q" using bj(2) by (simp only: of_int_le_iff)
    then show "Q \<le> of_int q" by (simp add: Q_def)
    have "(of_int q :: rat) < of_int (2 * 2 ^ nat j)" using bj(3) by (simp only: of_int_less_iff)
    then show "of_int q < 2 * Q" by (simp add: Q_def)
  qed
  have pos: "0 < P" "0 < Q" by (simp_all add: P_def Q_def)
  have q': "(0::rat) < of_int q" using q by simp
  have PQ: "P = 2 powi i" "Q = 2 powi j"
    using bi(1) bj(1) by (simp_all add: P_def Q_def power_int_def)
  have e0: "pow2 (i - j) = P / Q"
    unfolding PQ by (simp add: pow2_powi power_int_diff)
  have e1: "pow2 (i - j - 1) = P / Q / 2"
    using e0 by (simp add: pow2_powi power_int_diff)
  have up: "a < 2 * (P / Q)"
  proof -
    have "of_int p * Q < 2 * P * Q" using Pp(2) pos(2) by simp
    also have "\<dots> \<le> 2 * P * of_int q" using Qq(1) pos(1) by simp
    finally show ?thesis unfolding a using pos(2) q' by (simp add: field_simps)
  qed
  have low: "P / Q / 2 \<le> a"
  proof -
    have "P * of_int q \<le> P * (2 * Q)" using Qq(2) pos(1) by simp
    also have "\<dots> \<le> of_int p * (2 * Q)" using Pp(1) pos(2) by simp
    finally show ?thesis unfolding a using pos(2) q' by (simp add: field_simps)
  qed
  have ex: "exponent2 a = (if pow2 (i - j) \<le> a then i - j else i - j - 1)"
    by (simp add: exponent2_def pq i_def j_def Let_def)
  show ?thesis
  proof (cases "pow2 (i - j) \<le> a")
    case True
    then show ?thesis using up by (simp add: ex e0)
  next
    case False
    then have "a < P / Q" by (simp add: e0)
    then show ?thesis using low False by (simp add: ex e1)
  qed
qed

lemma round_double_near:
  assumes "round_double x = Finite y" "x \<noteq> 0"
  shows "\<bar>y - x\<bar> \<le> pow2 (max (exponent2 \<bar>x\<bar>) (- 1022) - 52) / 2"
proof -
  define q where "q = max (exponent2 \<bar>x\<bar>) (- 1022) - 52"
  define n where "n = round_half_even (\<bar>x\<bar> / pow2 q)"
  have y: "y = (if 0 < x then of_int n * pow2 q else - (of_int n * pow2 q))"
    using assms by (simp add: round_double_def Let_def q_def n_def split: if_splits)
  have pq: "0 < pow2 q" by (rule pow2_pos)
  have "\<bar>of_int n - \<bar>x\<bar> / pow2 q\<bar> \<le> 1 / 2" unfolding n_def by (rule round_half_even_near)
  then have "\<bar>of_int n - \<bar>x\<bar> / pow2 q\<bar> * pow2 q \<le> 1 / 2 * pow2 q"
    using pq by (simp only: mult_le_cancel_right_pos)
  moreover have "\<bar>of_int n - \<bar>x\<bar> / pow2 q\<bar> * pow2 q = \<bar>of_int n * pow2 q - \<bar>x\<bar>\<bar>"
  proof -
    have "\<bar>of_int n - \<bar>x\<bar> / pow2 q\<bar> * pow2 q = \<bar>(of_int n - \<bar>x\<bar> / pow2 q) * pow2 q\<bar>"
      using pq by (simp add: abs_mult)
    also have "(of_int n - \<bar>x\<bar> / pow2 q) * pow2 q = of_int n * pow2 q - \<bar>x\<bar>"
      using pq by (simp add: field_simps)
    finally show ?thesis .
  qed
  ultimately have b: "\<bar>of_int n * pow2 q - \<bar>x\<bar>\<bar> \<le> pow2 q / 2" by simp
  show ?thesis
  proof (cases "0 < x")
    case True
    then show ?thesis using b by (simp add: y q_def)
  next
    case False
    then have "x < 0" using assms(2) by simp
    then have "\<bar>y - x\<bar> = \<bar>of_int n * pow2 q - \<bar>x\<bar>\<bar>" by (simp add: y abs_minus_commute)
    then show ?thesis using b by (simp add: q_def)
  qed
qed

lemma round_double_relative:
  assumes "round_double x = Finite y" "pow2 (- 1022) \<le> \<bar>x\<bar>"
  shows "\<bar>y - x\<bar> \<le> \<bar>x\<bar> / 2 ^ 53"
proof -
  have x: "x \<noteq> 0" using assms(2) pow2_pos [of "- 1022"] by auto
  then have a: "0 < \<bar>x\<bar>" by simp
  define e where "e = exponent2 \<bar>x\<bar>"
  have eb: "pow2 e \<le> \<bar>x\<bar>" "\<bar>x\<bar> < 2 * pow2 e"
    using exponent2_bounds [OF a] by (simp_all add: e_def)
  have "pow2 (- 1022) < pow2 (e + 1)"
    using assms(2) eb(2) by (simp add: pow2_powi power_int_add)
  then have "- 1022 < e + 1"
    using power_int_increasing [of "e + 1" "- 1022" "2::rat"] by (auto simp: pow2_powi not_le [symmetric])
  then have m: "max e (- 1022) = e" by simp
  have "\<bar>y - x\<bar> \<le> pow2 (e - 52) / 2"
    using round_double_near [OF assms(1) x] by (simp add: e_def [symmetric] m)
  also have "pow2 (e - 52) / 2 = pow2 e / 2 ^ 53"
    by (simp add: pow2_powi power_int_diff)
  also have "\<dots> \<le> \<bar>x\<bar> / 2 ^ 53" using eb(1) by (simp add: divide_right_mono)
  finally show ?thesis .
qed

subsection \<open>The totals\<close>

lemma is_double_zero: "is_double 0"
  by (simp add: is_double_def round_double_def)

lemma fadd_exact: "is_double (a + c) \<Longrightarrow> fadd (Finite a) (Finite c) = Finite (a + c)"
  by (simp add: fadd_def is_double_def)

lemma foldl_fadd_exact:
  assumes "map cost rows = map Finite cs" "\<forall>k \<le> length cs. is_double (a + sum_list (take k cs))"
  shows "foldl (\<lambda>sum row. fadd sum (cost row)) (Finite a) rows = Finite (a + sum_list cs)"
  using assms
proof (induction cs arbitrary: rows a)
  case Nil
  then show ?case by simp
next
  case (Cons c cs)
  from Cons.prems(1) obtain r rs where r: "rows = r # rs" "cost r = Finite c" "map cost rs = map Finite cs"
    by (cases rows) auto
  have "is_double (a + sum_list (take 1 (c # cs)))" using Cons.prems(2) by fastforce
  then have s: "fadd (Finite a) (Finite c) = Finite (a + c)" by (simp add: fadd_exact)
  have "\<forall>k \<le> length cs. is_double (a + c + sum_list (take k cs))"
  proof (intro allI impI)
    fix k assume "k \<le> length cs"
    then have "is_double (a + sum_list (take (Suc k) (c # cs)))" using Cons.prems(2) by fastforce
    then show "is_double (a + c + sum_list (take k cs))" by (simp add: add.assoc)
  qed
  from Cons.IH [OF r(3) this] show ?case by (simp add: r s add.assoc)
qed

lemma subtotal_exact:
  assumes "map cost rows = map Finite cs" "\<forall>k \<le> length cs. is_double (sum_list (take k cs))"
  shows "subtotal rows = Finite (sum_list cs)"
  using foldl_fadd_exact [of rows cs 0] assms by (simp add: subtotal_def)

lemma subtotal_snoc: "subtotal (rows @ [row]) = fadd (subtotal rows) (cost row)"
  by (simp add: subtotal_def)

lemma shortest_from_reads_back:
  "is_double x \<Longrightarrow> round_double (shortest_from x k) = Finite x"
proof (induction x k rule: shortest_from.induct)
  case (1 x k)
  show ?case
  proof (cases "17 \<le> k")
    case True
    then show ?thesis using 1(2) by (simp add: shortest_from.simps [of x k] is_double_def)
  next
    case False
    show ?thesis
    proof (cases "shortest_candidates x k")
      case Nil
      then show ?thesis using False 1(1) [OF False Nil 1(2)]
        by (simp add: shortest_from.simps [of x k])
    next
      case (Cons d ds)
      then have "d \<in> set (shortest_candidates x k)" by simp
      then have "round_double d = Finite x"
        by (simp add: shortest_candidates_def Let_def split: if_splits)
      then show ?thesis using False Cons by (simp add: shortest_from.simps [of x k])
    qed
  qed
qed

lemma shortest_decimal_reads_back:
  "is_double x \<Longrightarrow> 0 \<le> x \<Longrightarrow> round_double (shortest_decimal x) = Finite x"
proof (cases "x = 0")
  case True
  then show ?thesis by (simp add: shortest_decimal_def round_double_def)
next
  case False
  assume "is_double x" "0 \<le> x"
  then show ?thesis using False shortest_from_reads_back [of x 1]
    by (simp add: shortest_decimal_def)
qed

lemma stored_estimate_columns:
  assumes "stored_estimate e = Some st" "est_subtotal e = Finite s"
    "est_overhead_amount e = Finite a" "est_total e = Finite t"
  shows "st_subtotal st = of_int (toFixed2_cents (shortest_decimal s)) / 100 \<and>
         st_overhead_amount st = of_int (toFixed2_cents (shortest_decimal a)) / 100 \<and>
         st_total st = of_int (toFixed2_cents (shortest_decimal t)) / 100"
  using assms
  by (auto simp: stored_estimate_def json_number_def decimal_column_def Let_def
      split: option.splits if_splits)

text \<open>
  C4 (as amended). The worksheet computes the subtotal as the sum of the rows' costs
  taken from left to right, the overhead amount as the subtotal times the percentage,
  divided by 100, and the total as their sum, each operation rounded to the nearest
  binary64 value. When the costs are finite and every partial sum and the product with
  the percentage are binary64 values, the subtotal is the exact sum, the overhead
  amount is the binary64 value nearest to the exact overhead, and the total is the
  rounded sum of the two. In general each addition, the multiplication and the division
  return a value within one part in \<open>2^53\<close> of the exact result of that operation on its
  operands (for results of normal magnitude). No rounding to two decimals enters these
  values or the object that is saved: that rounding happens in \<open>formatCurrency\<close>, whose
  result is a string that is never fed back, and in the \<open>decimal(12,2)\<close> columns of the
  table, which keep the saved subtotal, overhead amount and total rounded to cents (of
  the decimal the number travels as, which reads back as the number).
\<close>

theorem C4_worksheet_totals:
  assumes costs: "map cost rows = map Finite cs"
    and sums: "\<forall>k \<le> length cs. is_double (sum_list (take k cs))"
    and percentage: "overheadPercentage = Finite q"
    and product: "is_double (sum_list cs * q)"
  shows "subtotal rows = Finite (sum_list cs) \<and>
         overheadAmount rows overheadPercentage = round_double (sum_list cs * q / 100) \<and>
         total rows overheadPercentage =
           fadd (Finite (sum_list cs)) (round_double (sum_list cs * q / 100)) \<and>
         est_subtotal (estimateData jobName rows overheadPercentage) = Finite (sum_list cs) \<and>
         est_overhead_amount (estimateData jobName rows overheadPercentage) =
           round_double (sum_list cs * q / 100) \<and>
         est_total (estimateData jobName rows overheadPercentage) = total rows overheadPercentage \<and>
         (\<forall>st s a t. stored_estimate (estimateData jobName rows overheadPercentage) = Some st \<and>
            subtotal rows = Finite s \<and> overheadAmount rows overheadPercentage = Finite a \<and>
            total rows overheadPercentage = Finite t \<longrightarrow>
            st_subtotal st = of_int (toFixed2_cents (shortest_decimal s)) / 100 \<and>
            st_overhead_amount st = of_int (toFixed2_cents (shortest_decimal a)) / 100 \<and>
            st_total st = of_int (toFixed2_cents (shortest_decimal t)) / 100) \<and>
         (\<forall>x. is_double x \<and> 0 \<le> x \<longrightarrow> round_double (shortest_decimal x) = Finite x) \<and>
         (\<forall>rs r s c t. subtotal rs = Finite s \<and> cost r = Finite c \<and> subtotal (rs @ [r]) = Finite t \<and>
            pow2 (- 1022) \<le> \<bar>s + c\<bar> \<longrightarrow> \<bar>t - (s + c)\<bar> \<le> \<bar>s + c\<bar> / 2 ^ 53) \<and>
         (\<forall>rs p s m a. subtotal rs = Finite s \<and> fmul (Finite s) (Finite p) = Finite m \<and>
            overheadAmount rs (Finite p) = Finite a \<and>
            pow2 (- 1022) \<le> \<bar>s * p\<bar> \<and> pow2 (- 1022) \<le> \<bar>m / 100\<bar> \<longrightarrow>
            \<bar>m - s * p\<bar> \<le> \<bar>s * p\<bar> / 2 ^ 53 \<and> \<bar>a - m / 100\<bar> \<le> \<bar>m / 100\<bar> / 2 ^ 53) \<and>
         (\<forall>rs p s a t. subtotal rs = Finite s \<and> overheadAmount rs p = Finite a \<and>
            total rs p = Finite t \<and> pow2 (- 1022) \<le> \<bar>s + a\<bar> \<longrightarrow>
            \<bar>t - (s + a)\<bar> \<le> \<bar>s + a\<bar> / 2 ^ 53)"
proof -
  have s: "subtotal rows = Finite (sum_list cs)" using costs sums by (rule subtotal_exact)
  have m: "fmul (Finite (sum_list cs)) (Finite q) = Finite (sum_list cs * q)"
    using product by (simp add: fmul_def is_double_def)
  have a: "overheadAmount rows overheadPercentage = round_double (sum_list cs * q / 100)"
    by (simp add: overheadAmount_def s percentage m fdiv_def)
  have t: "total rows overheadPercentage =
      fadd (Finite (sum_list cs)) (round_double (sum_list cs * q / 100))"
    by (simp add: total_def s a)
  have e: "est_subtotal (estimateData jobName rows overheadPercentage) = Finite (sum_list cs)"
    "est_overhead_amount (estimateData jobName rows overheadPercentage) =
       round_double (sum_list cs * q / 100)"
    "est_total (estimateData jobName rows overheadPercentage) = total rows overheadPercentage"
    by (simp_all add: estimateData_def s a)
  have st: "\<forall>st s a t. stored_estimate (estimateData jobName rows overheadPercentage) = Some st \<and>
            subtotal rows = Finite s \<and> overheadAmount rows overheadPercentage = Finite a \<and>
            total rows overheadPercentage = Finite t \<longrightarrow>
            st_subtotal st = of_int (toFixed2_cents (shortest_decimal s)) / 100 \<and>
            st_overhead_amount st = of_int (toFixed2_cents (shortest_decimal a)) / 100 \<and>
            st_total st = of_int (toFixed2_cents (shortest_decimal t)) / 100"
  proof (intro allI impI, elim conjE)
    fix st s a t
    assume h: "stored_estimate (estimateData jobName rows overheadPercentage) = Some st"
      "subtotal rows = Finite s" "overheadAmount rows overheadPercentage = Finite a"
      "total rows overheadPercentage = Finite t"
    have f: "est_subtotal (estimateData jobName rows overheadPercentage) = Finite s"
      "est_overhead_amount (estimateData jobName rows overheadPercentage) = Finite a"
      "est_total (estimateData jobName rows overheadPercentage) = Finite t"
      using h(2-4) by (simp_all add: estimateData_def)
    show "st_subtotal st = of_int (toFixed2_cents (shortest_decimal s)) / 100 \<and>
          st_overhead_amount st = of_int (toFixed2_cents (shortest_decimal a)) / 100 \<and>
          st_total st = of_int (toFixed2_cents (shortest_decimal t)) / 100"
      using h(1) f by (rule stored_estimate_columns)
  qed
  have rb: "\<forall>x. is_double x \<and> 0 \<le> x \<longrightarrow> round_double (shortest_decimal x) = Finite x"
    using shortest_decimal_reads_back by blast
  have u1: "\<forall>rs r s c t. subtotal rs = Finite s \<and> cost r = Finite c \<and> subtotal (rs @ [r]) = Finite t \<and>
            pow2 (- 1022) \<le> \<bar>s + c\<bar> \<longrightarrow> \<bar>t - (s + c)\<bar> \<le> \<bar>s + c\<bar> / 2 ^ 53"
  proof (intro allI impI, elim conjE)
    fix rs r s c t
    assume h: "subtotal rs = Finite s" "cost r = Finite c" "subtotal (rs @ [r]) = Finite t"
      and n: "pow2 (- 1022) \<le> \<bar>s + c\<bar>"
    have "round_double (s + c) = Finite t" using h by (simp add: subtotal_snoc fadd_def)
    then show "\<bar>t - (s + c)\<bar> \<le> \<bar>s + c\<bar> / 2 ^ 53" using n by (rule round_double_relative)
  qed
  have u2: "\<forall>rs p s m a. subtotal rs = Finite s \<and> fmul (Finite s) (Finite p) = Finite m \<and>
            overheadAmount rs (Finite p) = Finite a \<and>
            pow2 (- 1022) \<le> \<bar>s * p\<bar> \<and> pow2 (- 1022) \<le> \<bar>m / 100\<bar> \<longrightarrow>
            \<bar>m - s * p\<bar> \<le> \<bar>s * p\<bar> / 2 ^ 53 \<and> \<bar>a - m / 100\<bar> \<le> \<bar>m / 100\<bar> / 2 ^ 53"
  proof (intro allI impI, elim conjE)
    fix rs p s m a
    assume h: "subtotal rs = Finite s" "fmul (Finite s) (Finite p) = Finite m"
        "overheadAmount rs (Finite p) = Finite a"
      and n: "pow2 (- 1022) \<le> \<bar>s * p\<bar>" "pow2 (- 1022) \<le> \<bar>m / 100\<bar>"
    have 1: "round_double (s * p) = Finite m" using h(2) by (simp add: fmul_def)
    have 2: "round_double (m / 100) = Finite a" using h by (simp add: overheadAmount_def fdiv_def)
    show "\<bar>m - s * p\<bar> \<le> \<bar>s * p\<bar> / 2 ^ 53 \<and> \<bar>a - m / 100\<bar> \<le> \<bar>m / 100\<bar> / 2 ^ 53"
      using round_double_relative [OF 1 n(1)] round_double_relative [OF 2 n(2)] by (rule conjI)
  qed
  have u3: "\<forall>rs p s a t. subtotal rs = Finite s \<and> overheadAmount rs p = Finite a \<and>
            total rs p = Finite t \<and> pow2 (- 1022) \<le> \<bar>s + a\<bar> \<longrightarrow>
            \<bar>t - (s + a)\<bar> \<le> \<bar>s + a\<bar> / 2 ^ 53"
  proof (intro allI impI, elim conjE)
    fix rs p s a t
    assume h: "subtotal rs = Finite s" "overheadAmount rs p = Finite a" "total rs p = Finite t"
      and n: "pow2 (- 1022) \<le> \<bar>s + a\<bar>"
    have "round_double (s + a) = Finite t" using h by (simp add: total_def fadd_def)
    then show "\<bar>t - (s + a)\<bar> \<le> \<bar>s + a\<bar> / 2 ^ 53" using n by (rule round_double_relative)
  qed
  show ?thesis using s a t e st rb u1 u2 u3 by (intro conjI)
qed

lemma example_doubles:
  "is_double 10" "is_double (61 / 2)" "is_double (915 / 2)"
  by code_simp+

lemma example_values:
  "round_double (183 / 40) = Finite (5150992073805005 / 1125899906842624)"
  "round_double (1403 / 40) = Finite (2468183702031565 / 70368744177664)"
  "fadd (Finite (61 / 2)) (Finite (5150992073805005 / 1125899906842624)) =
     Finite (2468183702031565 / 70368744177664)"
  by code_simp+

lemma example_texts:
  "formatCurrency (Finite (61 / 2)) = ''$30.50''"
  "formatCurrency (Finite (5150992073805005 / 1125899906842624)) = ''$4.58''"
  "formatCurrency (Finite (2468183702031565 / 70368744177664)) = ''$35.08''"
  by code_simp+

lemma example_stored:
  "stored_estimate
     \<lparr>job_name = ''Deck'', items = example_rows, overhead_percentage = Finite 15,
      est_subtotal = Finite (61 / 2),
      est_overhead_amount = Finite (5150992073805005 / 1125899906842624),
      est_total = Finite (2468183702031565 / 70368744177664)\<rparr> =
     Some \<lparr>st_overhead_percentage = 15, st_subtotal = 61 / 2, st_overhead_amount = 229 / 50,
           st_total = 877 / 25\<rparr>"
  by code_simp

text \<open>Rows 10.00 and 20.50 with 15 percent: the subtotal is 30.5; the overhead amount
  and the total are the binary64 values nearest to 4.575 and 35.075, which are what
  these decimals denote as number literals; they are shown as \<open>$30.50\<close>, \<open>$4.58\<close> and
  \<open>$35.08\<close>, and stored as 30.50, 4.58 and 35.08.\<close>

theorem C4_worksheet_totals_witness:
  "map cost example_rows = map Finite [10, 41 / 2] \<and>
   list_all is_double [0, 10, 61 / 2] \<and> is_double (61 / 2 * 15) \<and>
   subtotal example_rows = Finite (61 / 2) \<and>
   overheadAmount example_rows (Finite 15) = round_double (183 / 40) \<and>
   overheadAmount example_rows (Finite 15) = Finite (5150992073805005 / 1125899906842624) \<and>
   total example_rows (Finite 15) = Finite (2468183702031565 / 70368744177664) \<and>
   total example_rows (Finite 15) = round_double (1403 / 40) \<and>
   est_total (estimateData ''Deck'' example_rows (Finite 15)) =
     Finite (2468183702031565 / 70368744177664) \<and>
   formatCurrency (subtotal example_rows) = ''$30.50'' \<and>
   formatCurrency (overheadAmount example_rows (Finite 15)) = ''$4.58'' \<and>
   formatCurrency (total example_rows (Finite 15)) = ''$35.08'' \<and>
   stored_estimate (estimateData ''Deck'' example_rows (Finite 15)) =
     Some \<lparr>st_overhead_percentage = 15, st_subtotal = 61 / 2, st_overhead_amount = 229 / 50,
           st_total = 877 / 25\<rparr>"
proof -
  have c: "map cost example_rows = map Finite [10, 41 / 2]" by (simp add: example_rows_def)
  have k: "k = 0 \<or> k = 1 \<or> k = 2" if "k \<le> length [10, 41 / 2 :: rat]" for k
    using that by auto
  have d: "\<forall>k \<le> length [10, 41 / 2 :: rat]. is_double (sum_list (take k [10, 41 / 2]))"
    using k example_doubles is_double_zero by fastforce
  have p: "is_double (sum_list [10, 41 / 2] * 15)" using example_doubles(3) by simp
  have sl: "sum_list [10, 41 / 2 :: rat] = 61 / 2" "(61 / 2 :: rat) * 15 = 915 / 2"
    "(915 / 2 :: rat) / 100 = 183 / 40"
    by simp_all
  note c4 = C4_worksheet_totals [OF c d refl p, of "''Deck''", unfolded sl]
  have s: "subtotal example_rows = Finite (61 / 2)" using c4 by (rule conjunct1)
  have a: "overheadAmount example_rows (Finite 15) = round_double (183 / 40)"
    using c4 [THEN conjunct2] by (rule conjunct1)
  have a': "overheadAmount example_rows (Finite 15) = Finite (5150992073805005 / 1125899906842624)"
    unfolding a by (rule example_values(1))
  have t: "total example_rows (Finite 15) = Finite (2468183702031565 / 70368744177664)"
    using c4 [THEN conjunct2, THEN conjunct2, THEN conjunct1] unfolding example_values .
  have t': "total example_rows (Finite 15) = round_double (1403 / 40)"
    unfolding t by (rule example_values(2) [symmetric])
  have e: "est_total (estimateData ''Deck'' example_rows (Finite 15)) =
      Finite (2468183702031565 / 70368744177664)"
    by (simp add: estimateData_def t)
  have f: "formatCurrency (subtotal example_rows) = ''$30.50''"
    "formatCurrency (overheadAmount example_rows (Finite 15)) = ''$4.58''"
    "formatCurrency (total example_rows (Finite 15)) = ''$35.08''"
    unfolding s a' t by (rule example_texts)+
  have st: "stored_estimate (estimateData ''Deck'' example_rows (Finite 15)) =
     Some \<lparr>st_overhead_percentage = 15, st_subtotal = 61 / 2, st_overhead_amount = 229 / 50,
           st_total = 877 / 25\<rparr>"
    unfolding estimateData_def s a' t by (rule example_stored)
  have l: "list_all is_double [0, 10, 61 / 2]" using example_doubles is_double_zero by simp
  have p': "is_double (61 / 2 * 15)" using example_doubles(3) by simp
  show ?thesis using c l p' s a a' t t' e f st by (intro conjI)
qed

lemma dime_values:
  "map cost dime_rows =
     [Finite (3602879701896397 / 36028797018963968), Finite (3602879701896397 / 18014398509481984)]"
  "subtotal dime_rows = Finite (1351079888211149 / 4503599627370496)"
  "round_double (3 / 10) = Finite (5404319552844595 / 18014398509481984)"
  by code_simp+

lemma seventy_cent_values:
  "total seventy_cent_rows (Finite 15) = Finite (3625397700033249 / 4503599627370496)"
  "round_double (161 / 200) = Finite (7250795400066499 / 9007199254740992)"
  by code_simp+

lemma seventy_cent_text:
  "formatCurrency (Finite (3625397700033249 / 4503599627370496)) = ''$0.80''"
  by code_simp

lemma exact_text:
  "formatCurrency (Finite (7250795400066499 / 9007199254740992)) = ''$0.81''"
  by code_simp

text \<open>
  The claim as stated (the subtotal is the exact sum of the costs) does not hold: for
  rows of 0.10 and 0.20 the subtotal is 0.30000000000000004, which is neither the sum
  of the two costs nor the number 0.3. For one row of 0.70 with 15 percent the total
  is 0.8049999999999999, shown as \<open>$0.80\<close>, where the exact total 0.805 would be shown
  as \<open>$0.81\<close>.
\<close>

theorem C4_inexact_sum_counterexample:
  "map cost dime_rows =
     [Finite (3602879701896397 / 36028797018963968), Finite (3602879701896397 / 18014398509481984)] \<and>
   subtotal dime_rows = Finite (1351079888211149 / 4503599627370496) \<and>
   (3602879701896397 / 36028797018963968 + 3602879701896397 / 18014398509481984 :: rat) \<noteq>
     1351079888211149 / 4503599627370496 \<and>
   subtotal dime_rows \<noteq> round_double (3 / 10) \<and>
   total seventy_cent_rows (Finite 15) = Finite (3625397700033249 / 4503599627370496) \<and>
   total seventy_cent_rows (Finite 15) \<noteq> round_double (161 / 200) \<and>
   formatCurrency (total seventy_cent_rows (Finite 15)) = ''$0.80'' \<and>
   formatCurrency (round_double (161 / 200)) = ''$0.81''"
proof -
  have n: "(3602879701896397 / 36028797018963968 + 3602879701896397 / 18014398509481984 :: rat) \<noteq>
     1351079888211149 / 4503599627370496"
    by simp
  have d: "subtotal dime_rows \<noteq> round_double (3 / 10)"
    unfolding dime_values by simp
  have t: "total seventy_cent_rows (Finite 15) \<noteq> round_double (161 / 200)"
    unfolding seventy_cent_values by simp
  have f: "formatCurrency (total seventy_cent_rows (Finite 15)) = ''$0.80''"
    "formatCurrency (round_double (161 / 200)) = ''$0.81''"
    unfolding seventy_cent_values by (rule seventy_cent_text exact_text)+
  show ?thesis using dime_values(1,2) n d seventy_cent_values(1) t f by (intro conjI)
qed

section \<open>Claims about the invoice aggregates\<close>

lemma summary_add_entry_lookup:
  assumes "totals_defined acc" "summaryEntryHours entry = Some h"
  shows "map_of (employeeHours (summary_add_entry acc entry)) name =
           (if name = row_full_name entry then Some (Some (current_total acc name + h))
            else map_of (employeeHours acc) name)"
proof (cases "map_of (employeeHours acc) (row_full_name entry)")
  case None
  then show ?thesis using assms
    by (simp add: summary_add_entry_def Let_def update_conv' current_total_def js_add_def)
next
  case (Some t)
  then obtain x where x: "t = Some x" using assms(1) by (cases t) (auto simp: totals_defined_def)
  show ?thesis using assms Some x
    by (simp add: summary_add_entry_def Let_def update_conv' current_total_def js_add_def
        truthy_num_def hours_value_def)
qed

lemma summary_add_entry_defined:
  assumes "totals_defined acc" "summaryEntryHours entry = Some h"
  shows "totals_defined (summary_add_entry acc entry)"
  unfolding totals_defined_def
  using summary_add_entry_lookup [OF assms] assms(1) by (auto simp: totals_defined_def)

lemma summary_add_entry_current:
  assumes "totals_defined acc" "summaryEntryHours entry = Some h"
  shows "current_total (summary_add_entry acc entry) name =
           (if name = row_full_name entry then current_total acc name + h else current_total acc name)"
  using summary_add_entry_lookup [OF assms, of name]
  by (simp add: current_total_def hours_value_def)

lemma foldl_summary_lookup:
  assumes "totals_defined acc" "\<forall>entry \<in> set es. summaryEntryHours entry \<noteq> None"
  shows "totals_defined (foldl summary_add_entry acc es) \<and>
         map_of (employeeHours (foldl summary_add_entry acc es)) name =
           (if \<exists>entry \<in> set es. row_full_name entry = name
            then Some (Some (current_total acc name + name_hours summaryEntryHours es name))
            else map_of (employeeHours acc) name)"
  using assms
proof (induction es arbitrary: acc)
  case Nil
  then show ?case by simp
next
  case (Cons e es)
  from Cons.prems obtain h where h: "summaryEntryHours e = Some h" by auto
  have d: "totals_defined (summary_add_entry acc e)"
    using Cons.prems(1) h by (rule summary_add_entry_defined)
  have r: "\<forall>entry \<in> set es. summaryEntryHours entry \<noteq> None" using Cons.prems(2) by simp
  note IH = Cons.IH [OF d r]
  have c: "current_total (summary_add_entry acc e) name =
      (if name = row_full_name e then current_total acc name + h else current_total acc name)"
    using Cons.prems(1) h by (rule summary_add_entry_current)
  have l: "map_of (employeeHours (summary_add_entry acc e)) name =
      (if name = row_full_name e then Some (Some (current_total acc name + h))
       else map_of (employeeHours acc) name)"
    using Cons.prems(1) h by (rule summary_add_entry_lookup)
  show ?case using IH c l h
    by (auto simp: name_hours_def hours_value_def)
qed


lemma foldl_summary_distinct:
  "distinct (map fst (employeeHours acc)) \<Longrightarrow>
   distinct (map fst (employeeHours (foldl summary_add_entry acc es)))"
  by (induction es arbitrary: acc) (simp_all add: summary_add_entry_def Let_def distinct_update)

lemma locationSummary_lookup:
  assumes "\<forall>entry \<in> set entries. summaryEntryHours entry \<noteq> None"
    "name \<in> set (map row_full_name entries)"
  shows "map_of (employeeHours (locationSummary entries standalone)) name =
           Some (Some (name_hours summaryEntryHours entries name))"
proof -
  let ?init = "\<lparr>totalHours = Some 0, totalExpenses = 0, employeeHours = [], summary_entries = [],
             standaloneExpenses = []\<rparr>"
  have d: "totals_defined ?init" by (simp add: totals_defined_def)
  have c: "current_total ?init name = 0" by (simp add: current_total_def)
  have e: "\<exists>entry \<in> set entries. row_full_name entry = name" using assms(2) by auto
  show ?thesis
    using foldl_summary_lookup [OF d assms(1), of name] e c
    by (simp add: locationSummary_def Let_def)
qed


lemma locationSummary_distinct: "distinct (map fst (employeeHours (locationSummary entries standalone)))"
  by (simp add: locationSummary_def Let_def foldl_summary_distinct)














section \<open>Claims about grouping by name\<close>

lemma set_insert_by: "set (insert_by c x xs) = insert x (set xs)"
  by (induction xs) auto

lemma sort_by_Nil: "sort_by c [] = []"
  by (simp add: sort_by_def)

lemma sort_by_Cons: "sort_by c (x # xs) = insert_by c x (sort_by c xs)"
  by (simp add: sort_by_def)

lemma set_sort_by: "set (sort_by c xs) = set xs"
  by (induction xs) (simp_all add: sort_by_Nil sort_by_Cons set_insert_by)

lemma distinct_insert_by:
  "distinct (map f (insert_by c x xs)) = (f x \<notin> f ` set xs \<and> distinct (map f xs))"
  by (induction xs) (auto simp: set_insert_by)

lemma distinct_sort_by: "distinct (map f (sort_by c xs)) = distinct (map f xs)"
  by (induction xs) (simp_all add: sort_by_Nil sort_by_Cons distinct_insert_by set_sort_by)

lemma map_of_sort_by:
  assumes "distinct (map fst xs)"
  shows "map_of (sort_by c xs) = map_of xs"
proof -
  have "distinct (map fst (sort_by c xs))" using assms by (simp add: distinct_sort_by)
  then show ?thesis using assms by (simp add: map_of_inject_set set_sort_by)
qed

lemma group_add_entry_lookup:
  "map_option pg_totalHours (map_of (group_add_entry entry groups) name) =
     (if name = row_full_name entry then Some (js_add (group_total groups name) (row_duration entry))
      else map_option pg_totalHours (map_of groups name))"
  by (simp add: group_add_entry_def Let_def update_conv' group_total_def split: option.splits)

lemma group_add_entry_total:
  "group_total (group_add_entry entry groups) name =
     (if name = row_full_name entry then js_add (group_total groups name) (row_duration entry)
      else group_total groups name)"
  using group_add_entry_lookup [of entry groups name]
  by (auto simp: group_total_def split: option.splits)

lemma fold_group_lookup:
  "map_option pg_totalHours (map_of (fold group_add_entry es groups) name) =
     (if \<exists>entry \<in> set es. row_full_name entry = name
      then Some (foldl js_add (group_total groups name)
                   (map row_duration (filter (\<lambda>entry. row_full_name entry = name) es)))
      else map_option pg_totalHours (map_of groups name))"
proof (induction es arbitrary: groups)
  case Nil
  then show ?case by simp
next
  case (Cons e es)
  show ?case
    using Cons.IH [of "group_add_entry e groups"] group_add_entry_lookup [of e groups name]
      group_add_entry_total [of e groups name]
    by auto
qed

lemma fold_group_distinct:
  "distinct (map fst groups) \<Longrightarrow> distinct (map fst (fold group_add_entry es groups))"
  by (induction es arbitrary: groups) (simp_all add: group_add_entry_def Let_def distinct_update)

lemma map_of_finish:
  "map_of (map (\<lambda>(personName, personGroup). (personName, finish_person c personGroup)) groups) name =
     map_option (finish_person c) (map_of groups name)"
  by (induction groups) auto

lemma finish_person_total: "pg_totalHours (finish_person c g) = pg_totalHours g"
  by (simp add: finish_person_def Let_def)

lemma map_fst_finish:
  "map fst (map (\<lambda>(personName, personGroup). (personName, finish_person c personGroup)) groups) =
     map fst groups"
  by (induction groups) auto

lemma groupedEntries_lookup:
  assumes "name \<in> set (map row_full_name entries)"
  shows "\<exists>g. map_of (groupedEntries c entries) name = Some g \<and>
             pg_totalHours g =
               js_sum (map row_duration (filter (\<lambda>entry. row_full_name entry = name) entries))"
proof -
  let ?raw = "fold group_add_entry entries []"
  let ?fin = "map (\<lambda>(personName, personGroup). (personName, finish_person c personGroup)) ?raw"
  have d: "distinct (map fst ?fin)"
    unfolding map_fst_finish by (rule fold_group_distinct) simp
  have m: "map_of (groupedEntries c entries) name = map_option (finish_person c) (map_of ?raw name)"
    unfolding groupedEntries_def map_of_sort_by [OF d] map_of_finish by simp
  have e: "\<exists>entry \<in> set entries. row_full_name entry = name" using assms by auto
  have t: "map_option pg_totalHours (map_of ?raw name) =
      Some (js_sum (map row_duration (filter (\<lambda>entry. row_full_name entry = name) entries)))"
    using fold_group_lookup [of entries "[]" name] e by (simp add: group_total_def js_sum_def)
  then obtain g where g: "map_of ?raw name = Some g" by auto
  show ?thesis using t g m by (simp add: finish_person_total)
qed

lemma groupedEntries_distinct: "distinct (map fst (groupedEntries c entries))"
  unfolding groupedEntries_def distinct_sort_by map_fst_finish
  by (rule fold_group_distinct) simp

lemma js_sum_defined: "foldl js_add (Some a) (map Some xs) = Some (a + sum_list xs)"
  by (induction xs arbitrary: a) (simp_all add: js_add_def)

text \<open>
  C6. The dashboard's \<open>groupedEntries\<close> and the invoice's \<open>employeeHours\<close> hold exactly
  one group per display name, and its hours are the sum over all entries with that
  name; user ids are never compared. The dashboard sums with \<open>+=\<close> (\<open>js_sum\<close>); for the
  invoice, whose reducer resets a total that is \<open>NaN\<close>, the entries have well-formed
  times.
\<close>

theorem C6_grouping_by_display_name:
  assumes name: "name \<in> set (map row_full_name entries)"
    and defined: "\<forall>entry \<in> set entries. summaryEntryHours entry \<noteq> None"
  shows "(\<exists>g. map_of (groupedEntries localeCompare entries) name = Some g \<and>
              pg_totalHours g =
                js_sum (map row_duration (filter (\<lambda>entry. row_full_name entry = name) entries))) \<and>
         distinct (map fst (groupedEntries localeCompare entries)) \<and>
         map_of (employeeHours (locationSummary entries standalone)) name =
           Some (Some (name_hours summaryEntryHours entries name)) \<and>
         distinct (map fst (employeeHours (locationSummary entries standalone)))"
  using groupedEntries_lookup [OF name] groupedEntries_distinct
    locationSummary_lookup [OF defined name] locationSummary_distinct
  by simp

text \<open>Two rows with the name Alex Reed and the user ids u-1 and u-2, of 8 and 4 hours, are
  one group of 12 hours.\<close>

theorem C6_grouping_by_display_name_witness:
  "''Alex Reed'' \<in> set (map row_full_name example_entries) \<and>
   list_all (\<lambda>entry. summaryEntryHours entry \<noteq> None) example_entries \<and>
   row_full_name row_a = row_full_name row_b \<and> row_user_id row_a \<noteq> row_user_id row_b \<and>
   row_duration row_a = Some 8 \<and> row_duration row_b = Some 4 \<and>
   map (\<lambda>(name, g). (name, pg_totalHours g)) (groupedEntries compare_strings example_entries) =
     [(''Alex Reed'', Some 12), (''Sam Hill'', Some 2)] \<and>
   employeeHours (locationSummary example_entries []) =
     [(''Alex Reed'', Some 12), (''Sam Hill'', Some 2)] \<and>
   map_of (employeeHours (locationSummary example_entries [])) ''Alex Reed'' =
     Some (Some (name_hours summaryEntryHours example_entries ''Alex Reed''))"
proof -
  have n: "''Alex Reed'' \<in> set (map row_full_name example_entries)" by code_simp
  have d: "\<forall>entry \<in> set example_entries. summaryEntryHours entry \<noteq> None" by code_simp
  have v: "row_full_name row_a = row_full_name row_b" "row_user_id row_a \<noteq> row_user_id row_b"
    "row_duration row_a = Some 8" "row_duration row_b = Some 4"
    "map (\<lambda>(name, g). (name, pg_totalHours g)) (groupedEntries compare_strings example_entries) =
       [(''Alex Reed'', Some 12), (''Sam Hill'', Some 2)]"
    "employeeHours (locationSummary example_entries []) =
       [(''Alex Reed'', Some 12), (''Sam Hill'', Some 2)]"
    by code_simp+
  from C6_grouping_by_display_name [OF n d, of compare_strings "[]"]
  have "map_of (employeeHours (locationSummary example_entries [])) ''Alex Reed'' =
     Some (Some (name_hours summaryEntryHours example_entries ''Alex Reed''))"
    by blast
  then show ?thesis using n d v unfolding list_all_iff by (intro conjI)
qed


section \<open>Claims about the daily chart\<close>

lemma chart_hours_cell:
  "chart_hours data d user =
     (case cell_hours data d user of None \<Rightarrow> Some 0 | Some h \<Rightarrow> if truthy_num h then h else Some 0)"
  by (simp add: chart_hours_def cell_hours_def split: option.splits)

lemma chart_add_entry_cell:
  "cell_hours (chart_add_entry entry data) d user =
     (if d = row_date entry \<and> user = row_full_name entry
      then Some (js_add (case cell_hours data d user of None \<Rightarrow> Some 0 | Some h \<Rightarrow> h)
                   (row_duration entry))
      else cell_hours data d user)"
  by (simp add: chart_add_entry_def Let_def update_conv' cell_hours_def split: option.splits)

lemma fold_chart_cell:
  "cell_hours (fold chart_add_entry es data) d user =
     (if \<exists>entry \<in> set es. row_date entry = d \<and> row_full_name entry = user
      then Some (foldl js_add (case cell_hours data d user of None \<Rightarrow> Some 0 | Some h \<Rightarrow> h)
                   (map row_duration
                      (filter (\<lambda>entry. row_date entry = d \<and> row_full_name entry = user) es)))
      else cell_hours data d user)"
proof (induction es arbitrary: data)
  case Nil
  then show ?case by simp
next
  case (Cons e es)
  show ?case
    using Cons.IH [of "chart_add_entry e data"] chart_add_entry_cell [of e data d user]
    by auto
qed

lemma fold_days_lookup:
  "map_of (fold (\<lambda>d data. AList.update (format_yyyy_MM_dd d) [] data) days data) k =
     (if k \<in> format_yyyy_MM_dd ` set days then Some [] else map_of data k)"
  by (induction days arbitrary: data) (auto simp: update_conv')

lemma fold_days_keys:
  "fst ` set (fold (\<lambda>d data. AList.update (format_yyyy_MM_dd d) [] data) days data) =
     fst ` set data \<union> format_yyyy_MM_dd ` set days"
  by (induction days arbitrary: data) (auto simp: dom_update)

lemma fold_days_distinct:
  "distinct (map fst data) \<Longrightarrow>
   distinct (map fst (fold (\<lambda>d data. AList.update (format_yyyy_MM_dd d) [] data) days data))"
  by (induction days arbitrary: data) (simp_all add: distinct_update)

lemma chart_add_entry_keys:
  "fst ` set (chart_add_entry entry data) = insert (row_date entry) (fst ` set data)"
  by (simp add: chart_add_entry_def Let_def dom_update)

lemma fold_chart_keys:
  "fst ` set (fold chart_add_entry es data) = fst ` set data \<union> row_date ` set es"
  by (induction es arbitrary: data) (auto simp: chart_add_entry_keys)

lemma fold_chart_distinct:
  "distinct (map fst data) \<Longrightarrow> distinct (map fst (fold chart_add_entry es data))"
  by (induction es arbitrary: data) (simp_all add: chart_add_entry_def Let_def distinct_update)

lemma chart_table_keys:
  "set (map fst (chart_table entries days)) = format_yyyy_MM_dd ` set days \<union> row_date ` set entries"
  by (auto simp: chart_table_def fold_chart_keys fold_days_keys)

lemma chart_table_distinct: "distinct (map fst (chart_table entries days))"
  unfolding chart_table_def by (intro fold_chart_distinct fold_days_distinct) simp

lemma chart_table_hours: "chart_hours (chart_table entries days) d user = day_hours entries d user"
proof -
  let ?init = "fold (\<lambda>d data. AList.update (format_yyyy_MM_dd d) [] data) days []"
  have i: "cell_hours ?init d user = None"
    unfolding cell_hours_def fold_days_lookup by (simp split: if_splits)
  show ?thesis
    unfolding chart_hours_cell chart_table_def fold_chart_cell i
    by (auto simp: day_hours_def js_sum_def Let_def filter_empty_conv truthy_num_def)
qed

lemma two_digits_digit:
  "two_digits a b = Some n \<Longrightarrow> digit_of a \<noteq> None \<and> digit_of b \<noteq> None"
  by (auto simp: two_digits_def split: option.splits)

lemma parseISO_date_regex:
  assumes "parseISO_date s = Some z"
  shows "s \<noteq> [] \<and> length s = 10 \<and> dateRegex s"
proof -
  have l: "length s = 10" "s ! 4 = CHR ''-''" "s ! 7 = CHR ''-''"
    using assms by (auto simp: parseISO_date_def split: if_splits)
  obtain yh yl m d where
    "two_digits (s ! 0) (s ! 1) = Some yh" "two_digits (s ! 2) (s ! 3) = Some yl"
    "two_digits (s ! 5) (s ! 6) = Some m" "two_digits (s ! 8) (s ! 9) = Some d"
    using assms l by (auto simp: parseISO_date_def split: option.splits if_splits)
  then have "list_all (\<lambda>i. digit_of (s ! i) \<noteq> None) [0, 1, 2, 3, 5, 6, 8, 9]"
    by (auto dest!: two_digits_digit)
  then show ?thesis using l by (auto simp: dateRegex_def)
qed

lemma count_list_distinct: "distinct xs \<Longrightarrow> x \<in> set xs \<Longrightarrow> count_list xs x = 1"
  by (induction xs) auto

lemma day_hours_defined:
  assumes "\<forall>entry \<in> set entries. row_date entry = d \<and> row_full_name entry = user \<longrightarrow>
             row_duration entry \<noteq> None"
  shows "day_hours entries d user =
           Some (sum_list (map (\<lambda>entry. hours_value (row_duration entry))
             (filter (\<lambda>entry. row_date entry = d \<and> row_full_name entry = user) entries)))"
proof -
  let ?es = "filter (\<lambda>entry. row_date entry = d \<and> row_full_name entry = user) entries"
  have "map row_duration ?es = map Some (map (\<lambda>entry. hours_value (row_duration entry)) ?es)"
    using assms by (auto simp: hours_value_def)
  then have "js_sum (map row_duration ?es) =
      Some (0 + sum_list (map (\<lambda>entry. hours_value (row_duration entry)) ?es))"
    unfolding js_sum_def by (simp only: js_sum_defined)
  then show ?thesis by (simp add: day_hours_def Let_def truthy_num_def)
qed

text \<open>
  C5. For a non-empty list of entries and a valid range of dates, \<open>chartData\<close> returns a
  chart whose labels are sorted and without repetition and hold exactly one bucket for
  every day of the range (and one for any entry date outside it); it has one series per
  name, and the value of a series at a label is the sum of the hours of the entries of
  that name on that date, which is 0 when there is none.
\<close>

theorem C5_daily_chart_zero_filled:
  assumes entries: "entries \<noteq> []"
    and range: "parseISO_date startDate = Some s" "parseISO_date endDate = Some e" "s \<le> e"
  shows "\<exists>cd. chartData entries startDate endDate = Some cd \<and>
           sorted (labels cd) \<and> distinct (labels cd) \<and>
           set (labels cd) = format_yyyy_MM_dd ` {s..e} \<union> row_date ` set entries \<and>
           (\<forall>d \<in> {s..e}. count_list (labels cd) (format_yyyy_MM_dd d) = 1) \<and>
           map ds_label (datasets cd) = sort (remdups (map row_full_name entries)) \<and>
           (\<forall>ds \<in> set (datasets cd).
              ds_data ds = map (\<lambda>d. day_hours entries d (ds_label ds)) (labels cd)) \<and>
           (\<forall>d user.
              (\<forall>entry \<in> set entries. row_date entry = d \<and> row_full_name entry = user \<longrightarrow>
                 row_duration entry \<noteq> None) \<longrightarrow>
              day_hours entries d user =
                Some (sum_list (map (\<lambda>entry. hours_value (row_duration entry))
                  (filter (\<lambda>entry. row_date entry = d \<and> row_full_name entry = user) entries))))"
proof -
  let ?data = "chart_table entries (eachDayOfInterval s e)"
  let ?keys = "sort (map fst ?data)"
  let ?cd = "\<lparr>labels = ?keys,
      datasets = map (\<lambda>user.
        \<lparr>ds_label = user,
         ds_data = map (\<lambda>d. chart_hours ?data d user) ?keys,
         ds_locationData = map (\<lambda>d. chart_locations ?data d user) ?keys\<rparr>)
        (sort (remdups (map row_full_name entries)))\<rparr>"
  have rs: "startDate \<noteq> []" "length startDate = 10" "dateRegex startDate"
    using parseISO_date_regex [OF range(1)] by simp_all
  have re: "endDate \<noteq> []" "length endDate = 10" "dateRegex endDate"
    using parseISO_date_regex [OF range(2)] by simp_all
  have c: "chartData entries startDate endDate = Some ?cd"
    using entries rs re range by (simp add: chartData_def Let_def)
  have k: "set (labels ?cd) = format_yyyy_MM_dd ` {s..e} \<union> row_date ` set entries"
    using chart_table_keys [of entries "eachDayOfInterval s e"] by (simp add: eachDayOfInterval_def)
  have d: "distinct (labels ?cd)" using chart_table_distinct by simp
  have p: "sorted (labels ?cd)" by simp
  have o: "\<forall>x \<in> {s..e}. count_list (labels ?cd) (format_yyyy_MM_dd x) = 1"
  proof
    fix x assume "x \<in> {s..e}"
    then have "format_yyyy_MM_dd x \<in> set (labels ?cd)" unfolding k by blast
    then show "count_list (labels ?cd) (format_yyyy_MM_dd x) = 1"
      using d by (intro count_list_distinct)
  qed
  have h: "\<forall>ds \<in> set (datasets ?cd). ds_data ds = map (\<lambda>d. day_hours entries d (ds_label ds)) (labels ?cd)"
    by (auto simp: chart_table_hours)
  have l: "map ds_label (datasets ?cd) = sort (remdups (map row_full_name entries))"
    by (simp add: comp_def)
  have dh: "\<forall>d user.
      (\<forall>entry \<in> set entries. row_date entry = d \<and> row_full_name entry = user \<longrightarrow>
         row_duration entry \<noteq> None) \<longrightarrow>
      day_hours entries d user =
        Some (sum_list (map (\<lambda>entry. hours_value (row_duration entry))
          (filter (\<lambda>entry. row_date entry = d \<and> row_full_name entry = user) entries)))"
    using day_hours_defined by blast
  show ?thesis
    by (rule exI [of _ ?cd]) (intro conjI c p d k o l h dh)
qed

text \<open>Entries on the first and third day of 2024-05-01 to 2024-05-03: three buckets, the
  second one 0 in both series.\<close>

theorem C5_daily_chart_zero_filled_witness:
  "example_entries \<noteq> [] \<and>
   parseISO_date ''2024-05-01'' = Some 19844 \<and> parseISO_date ''2024-05-03'' = Some 19846 \<and>
   (19844 :: int) \<le> 19846 \<and>
   (\<exists>cd. chartData example_entries ''2024-05-01'' ''2024-05-03'' = Some cd \<and>
      labels cd = [''2024-05-01'', ''2024-05-02'', ''2024-05-03''] \<and>
      map ds_label (datasets cd) = [''Alex Reed'', ''Sam Hill''] \<and>
      map ds_data (datasets cd) = [[Some 8, Some 0, Some 4], [Some 2, Some 0, Some 0]] \<and>
      (\<forall>d \<in> {19844..19846}. count_list (labels cd) (format_yyyy_MM_dd d) = 1))"
proof -
  have n: "example_entries \<noteq> []" by (simp add: example_entries_def)
  have p: "parseISO_date ''2024-05-01'' = Some 19844" "parseISO_date ''2024-05-03'' = Some 19846"
    by code_simp+
  have le: "(19844 :: int) \<le> 19846" by simp
  have v: "map_option labels (chartData example_entries ''2024-05-01'' ''2024-05-03'') =
      Some [''2024-05-01'', ''2024-05-02'', ''2024-05-03'']"
    "map_option (\<lambda>cd. map ds_label (datasets cd)) (chartData example_entries ''2024-05-01'' ''2024-05-03'') =
      Some [''Alex Reed'', ''Sam Hill'']"
    "map_option (\<lambda>cd. map ds_data (datasets cd)) (chartData example_entries ''2024-05-01'' ''2024-05-03'') =
      Some [[Some 8, Some 0, Some 4], [Some 2, Some 0, Some 0]]"
    by code_simp+
  from C5_daily_chart_zero_filled [OF n p le] obtain cd where
    cd: "chartData example_entries ''2024-05-01'' ''2024-05-03'' = Some cd"
    and c: "\<forall>d \<in> {19844..19846}. count_list (labels cd) (format_yyyy_MM_dd d) = 1"
    by blast
  show ?thesis using n p le cd c v by simp
qed


end
